theory Spec2Isabelle
  imports Complex_Main "HOL-Library.AList" "HOL-Library.Char_ord" "HOL-Library.List_Lexorder"
begin

section \<open>Python values used by the two programs\<close>

text \<open>
  The transcript viewer consists of \<^verbatim>\<open>serve.py\<close> (state store, HTTP handler, deletion
  routine) and \<^verbatim>\<open>viewer/build.py\<close> (markdown parser, page builder). Both are embedded
  here as functions over an explicit file-system state.

  A Python \<^verbatim>\<open>str\<close> is a \<^typ>\<open>string\<close>: a list of characters with code points below 256.
  Request paths reach the handler decoded as ISO-8859-1, so for them one character is one
  byte and \<^verbatim>\<open>len\<close> is \<^const>\<open>length\<close>.
\<close>

subsection \<open>Strings\<close>

definition startswith :: "string \<Rightarrow> string \<Rightarrow> bool" where
  "startswith s p = (take (length p) s = p)"

text \<open>\<^verbatim>\<open>s.split(sep)\<close> for a one-character separator; the result is never empty.\<close>

fun split_on :: "char \<Rightarrow> string \<Rightarrow> string list" where
  "split_on sep [] = [[]]"
| "split_on sep (c # cs) =
     (if c = sep then [] # split_on sep cs
      else (case split_on sep cs of [] \<Rightarrow> [[c]] | w # ws \<Rightarrow> (c # w) # ws))"

text \<open>\<^verbatim>\<open>k in s\<close> on two strings: \<open>k\<close> occurs in \<open>s\<close> as a contiguous piece.\<close>

fun is_substring :: "string \<Rightarrow> string \<Rightarrow> bool" where
  "is_substring k [] = (k = [])"
| "is_substring k (c # cs) = (startswith (c # cs) k \<or> is_substring k cs)"

text \<open>
  \<^verbatim>\<open>str.isspace\<close> and the class \<^verbatim>\<open>\s\<close> of \<^verbatim>\<open>re\<close> agree on code points below 256:
  9 to 13, 28 to 32, 133 and 160.
\<close>

definition isspace :: "char \<Rightarrow> bool" where
  "isspace c =
     (let n = (of_char c :: nat)
      in (9 \<le> n \<and> n \<le> 13) \<or> (28 \<le> n \<and> n \<le> 32) \<or> n = 133 \<or> n = 160)"

definition isdigit :: "char \<Rightarrow> bool" where
  "isdigit c = (let n = (of_char c :: nat) in 48 \<le> n \<and> n \<le> 57)"

definition py_strip :: "string \<Rightarrow> string" where
  "py_strip s = rev (dropWhile isspace (rev (dropWhile isspace s)))"

text \<open>
  \<^verbatim>\<open>s.replace(old, new)\<close>: every occurrence of \<open>old\<close>, left to right and without overlap;
  an empty \<open>old\<close> puts \<open>new\<close> before every character and at the end.
\<close>

function str_replace :: "string \<Rightarrow> string \<Rightarrow> string \<Rightarrow> string" where
  "str_replace old new s =
     (if old = [] then new @ concat (map (\<lambda>c. c # new) s)
      else if startswith s old then new @ str_replace old new (drop (length old) s)
      else (case s of [] \<Rightarrow> [] | c # cs \<Rightarrow> c # str_replace old new cs))"
  by pat_completeness auto
termination
proof (relation "measure (\<lambda>(old, new, s). length s)")
  show "wf (measure (\<lambda>(old, new, s). length s))" by simp
next
  fix old new s :: string
  assume "old \<noteq> []" and "startswith s old"
  then have "length old \<le> length s"
    by (auto simp: startswith_def dest: arg_cong [where f = length])
  with \<open>old \<noteq> []\<close>
  show "((old, new, drop (length old) s), (old, new, s)) \<in> measure (\<lambda>(old, new, s). length s)"
    by (cases old) auto
next
  fix old new s :: string and c cs
  assume "s = c # cs"
  then show "((old, new, cs), (old, new, s)) \<in> measure (\<lambda>(old, new, s). length s)"
    by simp
qed

declare str_replace.simps [simp del]

text \<open>\<^verbatim>\<open>str(n)\<close> for a natural number, in decimal.\<close>

definition digit_char :: "nat \<Rightarrow> char" where
  "digit_char d = char_of (48 + d)"

function str_nat :: "nat \<Rightarrow> string" where
  "str_nat n = (if n < 10 then [digit_char n] else str_nat (n div 10) @ [digit_char (n mod 10)])"
  by pat_completeness auto
termination
  by (relation "measure id") auto

declare str_nat.simps [simp del]

subsection \<open>JSON values and the dynamic operations applied to them\<close>

text \<open>
  What \<^verbatim>\<open>json.loads\<close> returns: \<^verbatim>\<open>None\<close>, a bool, an int, a float (finite, or one of the
  non-standard literals NaN, Infinity and -Infinity that Python accepts), a string, a
  list or a dict. A dict is an association list in insertion order.
\<close>

datatype json =
    JNull
  | JBool bool
  | JInt int
  | JFloat rat
  | JNaN
  | JInf bool
  | JStr string
  | JArr "json list"
  | JObj "(string \<times> json) list"

datatype py_error = TypeError | KeyError | ValueError | JSONDecodeError | UnicodeDecodeError | OSError

text \<open>\<^verbatim>\<open>bool(v)\<close>.\<close>

fun py_bool :: "json \<Rightarrow> bool" where
  "py_bool JNull = False"
| "py_bool (JBool b) = b"
| "py_bool (JInt i) = (i \<noteq> 0)"
| "py_bool (JFloat q) = (q \<noteq> 0)"
| "py_bool JNaN = True"
| "py_bool (JInf s) = True"
| "py_bool (JStr s) = (s \<noteq> [])"
| "py_bool (JArr xs) = (xs \<noteq> [])"
| "py_bool (JObj kvs) = (kvs \<noteq> [])"

text \<open>
  \<^verbatim>\<open>k in v\<close> for a string \<open>k\<close>: key membership on a dict, element membership on a list,
  the substring test on a string, and a \<^verbatim>\<open>TypeError\<close> on everything else.
\<close>

fun py_in :: "string \<Rightarrow> json \<Rightarrow> py_error + bool" where
  "py_in k (JObj kvs) = Inr (map_of kvs k \<noteq> None)"
| "py_in k (JArr xs) = Inr (JStr k \<in> set xs)"
| "py_in k (JStr s) = Inr (is_substring k s)"
| "py_in k v = Inl TypeError"

text \<open>\<^verbatim>\<open>v[k]\<close>, \<^verbatim>\<open>v[k] = x\<close> and \<^verbatim>\<open>del v[k]\<close> for a string \<open>k\<close>: only a dict takes a string index.\<close>

fun py_getitem :: "json \<Rightarrow> string \<Rightarrow> py_error + json" where
  "py_getitem (JObj kvs) k = (case map_of kvs k of None \<Rightarrow> Inl KeyError | Some v \<Rightarrow> Inr v)"
| "py_getitem v k = Inl TypeError"

fun py_setitem :: "json \<Rightarrow> string \<Rightarrow> json \<Rightarrow> py_error + json" where
  "py_setitem (JObj kvs) k x = Inr (JObj (AList.update k x kvs))"
| "py_setitem v k x = Inl TypeError"

fun py_delitem :: "json \<Rightarrow> string \<Rightarrow> py_error + json" where
  "py_delitem (JObj kvs) k =
     (if map_of kvs k = None then Inl KeyError else Inr (JObj (AList.delete k kvs)))"
| "py_delitem v k = Inl TypeError"

section \<open>The file system under the skill directory\<close>

text \<open>
  A file is absent, present but impossible to open (a directory stands in its place, or
  the permissions forbid it: reading it and writing it both raise), or holds a value. The
  content of the state file is identified with what \<^verbatim>\<open>json.loads\<close> makes of it: a JSON
  value, text that is no JSON document, or bytes that are no text; what \<^verbatim>\<open>json.dumps\<close>
  writes parses back to the value written. The same classification applies to the bytes of
  a request body.
\<close>

datatype 'a pyfile = Absent | Unreadable | Holds 'a

datatype doc = Json json | Garbage | Not_text

text \<open>
  An entry of a content directory: \<open>unlink_error\<close> is the text of the exception that
  \<^verbatim>\<open>unlink\<close> raises on it (\<open>None\<close> when the removal succeeds), \<open>body\<close> the text that
  \<^verbatim>\<open>read_text\<close> returns (\<open>None\<close> when reading raises). A directory lists its entries
  in the order in which \<^verbatim>\<open>glob\<close> visits them.
\<close>

datatype entry = Entry (unlink_error: "string option") (body: "string option")

type_synonym directory = "(string \<times> entry) list"

record world =
  dirs :: "string \<Rightarrow> directory option"
  state_file :: "doc pyfile"
  template_file :: "string pyfile"
  index_html :: "string pyfile"
  build_script :: bool

definition file_exists :: "'a pyfile \<Rightarrow> bool" where
  "file_exists f = (f \<noteq> Absent)"

definition read_text :: "'a pyfile \<Rightarrow> py_error + 'a" where
  "read_text f = (case f of Holds t \<Rightarrow> Inr t | _ \<Rightarrow> Inl OSError)"

definition json_loads :: "doc \<Rightarrow> py_error + json" where
  "json_loads d =
     (case d of Json v \<Rightarrow> Inr v | Garbage \<Rightarrow> Inl JSONDecodeError | Not_text \<Rightarrow> Inl UnicodeDecodeError)"

definition json_dumps :: "json \<Rightarrow> doc" where
  "json_dumps v = Json v"


subsection \<open>Shell patterns\<close>

text \<open>
  \<^verbatim>\<open>Path.glob\<close> with a pattern of one path component matches the names of a directory
  against \<^verbatim>\<open>fnmatch.translate\<close> of the pattern. A pattern is a sequence of items: \<open>*\<close>
  (any text), \<open>?\<close> (any character), a bracket expression, or a literal character.
  A set of characters is a list of ranges \<open>(lo, hi)\<close>, bounds included.
\<close>

datatype glob_item = Star | Any_char | Lit char | One_of "(char \<times> char) list"
  | None_of "(char \<times> char) list" | Never

definition find_from :: "char \<Rightarrow> nat \<Rightarrow> string \<Rightarrow> nat option" where
  "find_from c k s =
     (if c \<in> set (drop k s) then Some (k + length (takeWhile (\<lambda>x. x \<noteq> c) (drop k s))) else None)"

text \<open>
  After an opening bracket: the index of the closing one. A \<open>!\<close> and then a \<open>]\<close> standing
  first do not close the expression.
\<close>

definition bracket_end :: "string \<Rightarrow> nat option" where
  "bracket_end rest =
     (let j = (if startswith rest ''!'' then 1 else 0);
          j' = (if startswith (drop j rest) '']'' then j + 1 else j)
      in find_from (CHR '']'') j' rest)"

text \<open>
  The text between the brackets is cut at the hyphens that can stand between the two
  ends of a range: the search for the next hyphen starts \<open>skip\<close> characters into what is
  left (one character in, or two after a leading \<open>!\<close>; two after every cut).
\<close>

function chunk_split :: "nat \<Rightarrow> string \<Rightarrow> string list" where
  "chunk_split skip s =
     (case find_from (CHR ''-'') skip s of
        None \<Rightarrow> [s]
      | Some k \<Rightarrow> take k s # chunk_split 2 (drop (Suc k) s))"
  by pat_completeness auto
termination
proof (relation "measure (\<lambda>(skip, s). length s)")
  show "wf (measure (\<lambda>(skip, s). length s))" by simp
next
  fix skip :: nat and s :: string and k
  assume "find_from (CHR ''-'') skip s = Some k"
  then have "s \<noteq> []"
    by (auto simp: find_from_def split: if_splits)
  then show "((2, drop (Suc k) s), (skip, s)) \<in> measure (\<lambda>(skip, s). length s)"
    by (cases s) auto
qed

declare chunk_split.simps [simp del]

text \<open>An empty last chunk means that the text ends in a hyphen, which joins the chunk before.\<close>

definition fix_last :: "string list \<Rightarrow> string list" where
  "fix_last cs =
     (case rev cs of
        [] # c # front \<Rightarrow> rev front @ [c @ ''-'']
      | _ \<Rightarrow> cs)"

text \<open>
  From the right: a range whose lower end lies above its upper end is empty, and both of
  its ends are dropped.
\<close>

fun merge_ranges :: "string list \<Rightarrow> string list" where
  "merge_ranges [] = []"
| "merge_ranges [c] = [c]"
| "merge_ranges (c # cs) =
     (case merge_ranges cs of
        [] \<Rightarrow> [c]
      | d # ds \<Rightarrow>
          (case (rev c, d) of
             (x # _, y # _) \<Rightarrow> if x > y then (butlast c @ tl d) # ds else c # d # ds
           | _ \<Rightarrow> c # d # ds))"

text \<open>The set that a list of chunks denotes: between two chunks stands a range.\<close>

fun chunk_ranges :: "string list \<Rightarrow> (char \<times> char) list" where
  "chunk_ranges [] = []"
| "chunk_ranges [c] = map (\<lambda>x. (x, x)) c"
| "chunk_ranges (c # d # cs) =
     (case (rev c, d) of
        (x # _, y # ys) \<Rightarrow> map (\<lambda>x. (x, x)) (butlast c) @ (x, y) # chunk_ranges (ys # cs)
      | _ \<Rightarrow> map (\<lambda>x. (x, x)) c @ chunk_ranges (d # cs))"

definition bracket_item :: "string \<Rightarrow> glob_item" where
  "bracket_item stuff =
     (let chunks =
            (if CHR ''-'' \<notin> set stuff then [stuff]
             else merge_ranges (fix_last (chunk_split (if startswith stuff ''!'' then 2 else 1) stuff)))
      in if chunks = [[]] then Never
         else if chunks = [''!''] then Any_char
         else (case chunks of
                 (c # cs) # rest \<Rightarrow>
                   if c = CHR ''!'' then None_of (chunk_ranges (cs # rest))
                   else One_of (chunk_ranges chunks)
               | _ \<Rightarrow> One_of (chunk_ranges chunks)))"

function translate :: "string \<Rightarrow> glob_item list" where
  "translate [] = []"
| "translate (c # pat) =
     (if c = CHR ''*'' then
        (case translate pat of Star # items \<Rightarrow> Star # items | items \<Rightarrow> Star # items)
      else if c = CHR ''?'' then Any_char # translate pat
      else if c = CHR ''['' then
        (case bracket_end pat of
           None \<Rightarrow> Lit c # translate pat
         | Some j \<Rightarrow> bracket_item (take j pat) # translate (drop (Suc j) pat))
      else Lit c # translate pat)"
  by pat_completeness auto
termination
  by (relation "measure length") auto

declare translate.simps [simp del]

definition in_ranges :: "(char \<times> char) list \<Rightarrow> char \<Rightarrow> bool" where
  "in_ranges rs c = list_ex (\<lambda>(lo, hi). lo \<le> c \<and> c \<le> hi) rs"

fun item_ok :: "glob_item \<Rightarrow> char \<Rightarrow> bool" where
  "item_ok Any_char c = True"
| "item_ok (Lit x) c = (x = c)"
| "item_ok (One_of rs) c = in_ranges rs c"
| "item_ok (None_of rs) c = (\<not> in_ranges rs c)"
| "item_ok Never c = False"
| "item_ok Star c = True"

fun items_match :: "glob_item list \<Rightarrow> string \<Rightarrow> bool" where
  "items_match [] s = (s = [])"
| "items_match (Star # items) [] = items_match items []"
| "items_match (Star # items) (c # cs) = (items_match items (c # cs) \<or> items_match (Star # items) cs)"
| "items_match (i # items) [] = False"
| "items_match (i # items) (c # cs) = (item_ok i c \<and> items_match items cs)"

definition fnmatch :: "string \<Rightarrow> string \<Rightarrow> bool" where
  "fnmatch name pat = items_match (translate pat) name"

text \<open>
  \<^verbatim>\<open>dir_path.glob(pattern)\<close> on an existing directory, for a pattern of one component,
  as \<^verbatim>\<open>pathlib\<close> of Python 3.10 to 3.12 does it. Two adjacent stars inside a component
  are refused with a \<^verbatim>\<open>ValueError\<close> when the iteration starts, before any entry is
  visited. The entries are listed once, at the start; files and subdirectories are both
  matched, hidden names included.
\<close>

definition glob :: "directory \<Rightarrow> string \<Rightarrow> py_error + directory" where
  "glob d pat =
     (if is_substring ''**'' pat then Inl ValueError
      else Inr (filter (\<lambda>(name, e). fnmatch name pat) d))"


section \<open>The page builder (viewer/build.py)\<close>

subsection \<open>Regular expressions of the parser\<close>

text \<open>
  \<^verbatim>\<open>re.search\<close> returns the match that starts leftmost. Every pattern of the parser is
  embedded as a function that matches at the head of a string and returns the text of
  group 1; \<open>re_search\<close> tries it at every position, from the left.
\<close>

fun re_search :: "(string \<Rightarrow> 'a option) \<Rightarrow> string \<Rightarrow> 'a option" where
  "re_search m [] = m []"
| "re_search m (c # cs) = (case m (c # cs) of Some r \<Rightarrow> Some r | None \<Rightarrow> re_search m cs)"

definition newline :: char where
  "newline = CHR 0x0A"

text \<open>The class \<^verbatim>\<open>[a-zA-Z0-9_-]\<close> and the group \<^verbatim>\<open>([a-zA-Z0-9_-]{11})\<close>.\<close>

definition idchar :: "char \<Rightarrow> bool" where
  "idchar c =
     (let n = (of_char c :: nat)
      in (97 \<le> n \<and> n \<le> 122) \<or> (65 \<le> n \<and> n \<le> 90) \<or> (48 \<le> n \<and> n \<le> 57)
         \<or> c = CHR ''_'' \<or> c = CHR ''-'')"

definition take_id :: "string \<Rightarrow> (string \<times> string) option" where
  "take_id s =
     (if length (take 11 s) = 11 \<and> list_all idchar (take 11 s) then Some (take 11 s, drop 11 s)
      else None)"

text \<open>\<^verbatim>\<open>[?&]v=([a-zA-Z0-9_-]{11})\<close>\<close>

definition v_param_at :: "string \<Rightarrow> string option" where
  "v_param_at s =
     (case s of
        [] \<Rightarrow> None
      | c # rest \<Rightarrow>
          if (c = CHR ''?'' \<or> c = CHR ''&'') \<and> startswith rest ''v=''
          then map_option fst (take_id (drop 2 rest)) else None)"

text \<open>\<^verbatim>\<open>youtu\.be/([a-zA-Z0-9_-]{11})\<close>\<close>

definition youtu_be_at :: "string \<Rightarrow> string option" where
  "youtu_be_at s =
     (if startswith s ''youtu.be/'' then map_option fst (take_id (drop 9 s)) else None)"

text \<open>
  \<^verbatim>\<open>-([a-zA-Z0-9_-]{11})\.md$\<close>: without the multi-line flag, \<^verbatim>\<open>$\<close> matches at the end
  of the string and before a newline that ends the string.
\<close>

definition filename_id_at :: "string \<Rightarrow> string option" where
  "filename_id_at s =
     (case s of
        [] \<Rightarrow> None
      | c # rest \<Rightarrow>
          if c = CHR ''-'' then
            (case take_id rest of
               None \<Rightarrow> None
             | Some (vid, r) \<Rightarrow> if r = ''.md'' \<or> r = ''.md'' @ [newline] then Some vid else None)
          else None)"

text \<open>
  \<^verbatim>\<open>\*\*URL:\*\*\s*(https?://[^\s]+)\<close>: the marker, all the white space that follows, the
  scheme, and at least one character up to the next white space.
\<close>

definition url_at :: "string \<Rightarrow> string option" where
  "url_at s =
     (if startswith s ''**URL:**'' then
        (let r = dropWhile isspace (drop 8 s);
             scheme = (if startswith r ''https://'' then Some ''https://''
                       else if startswith r ''http://'' then Some ''http://'' else None)
         in case scheme of
              None \<Rightarrow> None
            | Some sch \<Rightarrow>
                (let tail = takeWhile (\<lambda>c. \<not> isspace c) (drop (length sch) r)
                 in if tail = [] then None else Some (sch @ tail)))
      else None)"

text \<open>
  \<^verbatim>\<open>\*\*Channel:\*\*\s*(.+)\<close>: the group is the rest of the line on which the white space
  after the marker ends. When only white space follows up to the end of the text, the
  matcher gives characters of the white space back until the group can start: the group
  is then the last white-space character that is not a newline.
\<close>

definition rest_of_line :: "string \<Rightarrow> string" where
  "rest_of_line s = takeWhile (\<lambda>c. c \<noteq> newline) s"

definition channel_at :: "string \<Rightarrow> string option" where
  "channel_at s =
     (if startswith s ''**Channel:**'' then
        (let sp = takeWhile isspace (drop 12 s); r = dropWhile isspace (drop 12 s)
         in if r \<noteq> [] then Some (rest_of_line r)
            else (case rev (filter (\<lambda>c. c \<noteq> newline) sp) of
                    [] \<Rightarrow> None
                  | c # _ \<Rightarrow> Some [c]))
      else None)"

text \<open>
  \<^verbatim>\<open>^#\s+(.+)$\<close> with the multi-line flag: \<open>#\<close> at the start of a line, at least one
  white-space character, and the group as for the channel; the first white-space
  character cannot be given back.
\<close>

definition title_at :: "string \<Rightarrow> string option" where
  "title_at s =
     (case s of
        [] \<Rightarrow> None
      | c # rest \<Rightarrow>
          if c = CHR ''#'' then
            (let sp = takeWhile isspace rest; r = dropWhile isspace rest
             in if sp = [] then None
                else if r \<noteq> [] then Some (rest_of_line r)
                else (case rev (filter (\<lambda>c. c \<noteq> newline) (tl sp)) of
                        [] \<Rightarrow> None
                      | c # _ \<Rightarrow> Some [c]))
          else None)"

text \<open>The search for the title: \<open>bol\<close> says that the head of the text starts a line.\<close>

fun title_search :: "bool \<Rightarrow> string \<Rightarrow> string option" where
  "title_search bol [] = None"
| "title_search bol (c # cs) =
     (case (if bol then title_at (c # cs) else None) of
        Some g \<Rightarrow> Some g
      | None \<Rightarrow> title_search (c = newline) cs)"

text \<open>\<^verbatim>\<open>^(\d{4}-\d{2}-\d{2})\<close> with \<^verbatim>\<open>re.match\<close>: at the start of the string only.\<close>

definition digits_then :: "nat \<Rightarrow> string \<Rightarrow> string option" where
  "digits_then n s =
     (if length (take n s) = n \<and> list_all isdigit (take n s) then Some (drop n s) else None)"

definition lit_then :: "string \<Rightarrow> string \<Rightarrow> string option" where
  "lit_then p s = (if startswith s p then Some (drop (length p) s) else None)"

definition date_at :: "string \<Rightarrow> string option" where
  "date_at s =
     (case Option.bind (Option.bind (Option.bind (Option.bind (digits_then 4 s)
             (lit_then ''-'')) (digits_then 2)) (lit_then ''-'')) (digits_then 2) of
        None \<Rightarrow> None
      | Some _ \<Rightarrow> Some (take 10 s))"

subsection \<open>extract\_video\_id and parse\_summary\<close>

text \<open>The URL is tried first when it is a non-empty string, then the file name.\<close>

definition extract_video_id :: "string \<Rightarrow> string option \<Rightarrow> string option" where
  "extract_video_id filename url =
     (case (case url of
              None \<Rightarrow> None
            | Some u \<Rightarrow>
                if u = [] then None
                else (case re_search v_param_at u of
                        Some v \<Rightarrow> Some v
                      | None \<Rightarrow> re_search youtu_be_at u)) of
        Some v \<Rightarrow> Some v
      | None \<Rightarrow> re_search filename_id_at filename)"

text \<open>\<^verbatim>\<open>Path.stem\<close>: the name up to its last dot, unless that dot stands first or last.\<close>

definition stem :: "string \<Rightarrow> string" where
  "stem name =
     (if CHR ''.'' \<in> set name then
        (let i = length name - 1 - length (takeWhile (\<lambda>c. c \<noteq> CHR ''.'') (rev name))
         in if 0 < i \<and> i < length name - 1 then take i name else name)
      else name)"

record summary =
  sm_id :: string
  sm_title :: string
  sm_channel :: string
  sm_url :: string
  sm_date :: string
  sm_thumbnail :: string
  sm_content :: string

text \<open>
  \<open>parse_summary name content\<close>: \<open>name\<close> is \<^verbatim>\<open>filepath.name\<close>, \<open>content\<close> what
  \<^verbatim>\<open>read_text\<close> gives (\<open>None\<close> when it raises, which the parser turns into no record).
\<close>

definition parse_summary :: "string \<Rightarrow> string option \<Rightarrow> summary option" where
  "parse_summary name content =
     (case content of
        None \<Rightarrow> None
      | Some text \<Rightarrow>
          (let title = (case title_search True text of
                          Some g \<Rightarrow> py_strip g | None \<Rightarrow> stem name);
               channel = (case re_search channel_at text of
                            Some g \<Rightarrow> py_strip g | None \<Rightarrow> ''Unknown'');
               url = map_option py_strip (re_search url_at text);
               date = (case date_at (stem name) of Some d \<Rightarrow> d | None \<Rightarrow> ''2025-01-01'')
           in case extract_video_id name url of
                None \<Rightarrow> None
              | Some video_id \<Rightarrow>
                  if video_id = [] then None
                  else Some \<lparr>sm_id = video_id,
                          sm_title = title,
                          sm_channel = channel,
                          sm_url = (case url of
                                      None \<Rightarrow> ''https://www.youtube.com/watch?v='' @ video_id
                                    | Some u \<Rightarrow>
                                        if u = [] then ''https://www.youtube.com/watch?v='' @ video_id
                                        else u),
                          sm_date = date,
                          sm_thumbnail = ''https://i.ytimg.com/vi/'' @ video_id @ ''/maxresdefault.jpg'',
                          sm_content = text\<rparr>))"

subsection \<open>Serialising the records\<close>

text \<open>
  \<^verbatim>\<open>json.dumps(summaries, ensure_ascii=False, indent=None)\<close> on a list of dicts of strings:
  the quote, the backslash and the control characters are escaped, every other character
  is written as it is.
\<close>

definition hex_digit :: "nat \<Rightarrow> char" where
  "hex_digit d = (if d < 10 then char_of (48 + d) else char_of (87 + d))"

definition json_escape :: "char \<Rightarrow> string" where
  "json_escape c =
     (let n = (of_char c :: nat)
      in if c = CHR 0x22 then [CHR 0x5C, CHR 0x22]
         else if c = CHR 0x5C then [CHR 0x5C, CHR 0x5C]
         else if n = 10 then [CHR 0x5C, CHR ''n'']
         else if n = 13 then [CHR 0x5C, CHR ''r'']
         else if n = 9 then [CHR 0x5C, CHR ''t'']
         else if n = 8 then [CHR 0x5C, CHR ''b'']
         else if n = 12 then [CHR 0x5C, CHR ''f'']
         else if n < 32 then [CHR 0x5C, CHR ''u'', CHR ''0'', CHR ''0'', hex_digit (n div 16), hex_digit (n mod 16)]
         else [c])"

definition dumps_str :: "string \<Rightarrow> string" where
  "dumps_str s = [CHR 0x22] @ concat (map json_escape s) @ [CHR 0x22]"

fun join :: "string \<Rightarrow> string list \<Rightarrow> string" where
  "join sep [] = []"
| "join sep [x] = x"
| "join sep (x # y # ys) = x @ sep @ join sep (y # ys)"

definition dumps_summary :: "summary \<Rightarrow> string" where
  "dumps_summary r =
     ''{'' @ join '', ''
       (map (\<lambda>(k, v). dumps_str k @ '': '' @ dumps_str v)
          [(''id'', sm_id r), (''title'', sm_title r), (''channel'', sm_channel r),
           (''url'', sm_url r), (''date'', sm_date r), (''thumbnail'', sm_thumbnail r),
           (''content'', sm_content r)]) @ ''}''"

definition dumps_summaries :: "summary list \<Rightarrow> string" where
  "dumps_summaries rs = ''['' @ join '', '' (map dumps_summary rs) @ '']''"

subsection \<open>build\_viewer\<close>

definition placeholder :: string where
  "placeholder = ''/*SUMMARIES_DATA*/[]''"

text \<open>
  \<^verbatim>\<open>sorted(paths, reverse=True)\<close>: paths of one directory compare by name; the sort is
  stable, also with the order reversed.
\<close>

definition sorted_reverse :: "directory \<Rightarrow> directory" where
  "sorted_reverse d = rev (sort_key fst (rev d))"

text \<open>
  The result is the new file system and either the exception that ended the run or the
  value returned. The directory and the template are looked up beside the script, under
  the skill directory. Writing the output page is taken to succeed.
\<close>

definition build_viewer :: "world \<Rightarrow> world \<times> (py_error + bool)" where
  "build_viewer w =
     (case dirs w ''summaries'' of
        None \<Rightarrow> (w, Inr False)
      | Some d \<Rightarrow>
          if \<not> file_exists (template_file w) then (w, Inr False)
          else
            (case glob d ''*.md'' of
               Inl e \<Rightarrow> (w, Inl e)
             | Inr found \<Rightarrow>
                 (let md_files = sorted_reverse found;
                      summaries = List.map_filter (\<lambda>(name, e). parse_summary name (body e)) md_files
                  in case read_text (template_file w) of
                       Inl e \<Rightarrow> (w, Inl e)
                     | Inr template \<Rightarrow>
                         (let data_json = dumps_summaries summaries;
                              html = str_replace placeholder data_json template
                          in (w\<lparr>index_html := Holds html\<rparr>, Inr True)))))"


section \<open>The server (serve.py)\<close>

subsection \<open>The state store\<close>

text \<open>The bare \<^verbatim>\<open>except\<close> swallows every failure of reading and of parsing.\<close>

definition load_state :: "world \<Rightarrow> json" where
  "load_state w =
     (if file_exists (state_file w) then
        (case read_text (state_file w) of
           Inl e \<Rightarrow> JObj []
         | Inr text \<Rightarrow> (case json_loads text of Inl e \<Rightarrow> JObj [] | Inr v \<Rightarrow> v))
      else JObj [])"

text \<open>
  \<^verbatim>\<open>write_text\<close> is not guarded: on a state file that cannot be opened it raises, and the
  exception leaves \<open>save_state\<close> and its caller. A state file that holds a value is
  rewritten, and an absent one is created.
\<close>

definition save_state :: "world \<Rightarrow> json \<Rightarrow> py_error + world" where
  "save_state w state =
     (if state_file w = Unreadable then Inl OSError
      else Inr (w\<lparr>state_file := Holds (json_dumps state)\<rparr>))"

text \<open>
  The build script runs as a child process: what it raises or returns stays there, what
  it writes remains.
\<close>

definition rebuild_viewer :: "world \<Rightarrow> world" where
  "rebuild_viewer w = (if build_script w then fst (build_viewer w) else w)"

subsection \<open>delete\_transcript\<close>

definition patterns :: "string \<Rightarrow> (string \<times> string) list" where
  "patterns video_id =
     [(''summaries'', ''*-'' @ video_id @ ''.md''),
      (''metadata'', ''*-'' @ video_id @ ''.json''),
      (''transcripts'', ''*-'' @ video_id @ ''.txt''),
      (''transcripts'', ''*-'' @ video_id @ ''.srt''),
      (''audio'', ''*-'' @ video_id @ ''.mp3'')]"

text \<open>\<^verbatim>\<open>unlink\<close> takes one entry of that name out of its directory.\<close>

fun remove_entry :: "string \<Rightarrow> directory \<Rightarrow> directory" where
  "remove_entry name [] = []"
| "remove_entry name ((n, e) # d) = (if n = name then d else (n, e) # remove_entry name d)"

text \<open>
  How a loop ends: an exception leaves the function, a \<^verbatim>\<open>return\<close> ends it with a
  value, or the loop runs to its end.
\<close>

datatype 'a flow = Raise py_error | Return "bool \<times> string" | Next 'a

text \<open>
  The inner loop over the paths that \<^verbatim>\<open>glob\<close> found in one directory; \<open>deleted\<close> is the
  list \<^verbatim>\<open>deleted_files\<close>, of paths relative to the skill directory.
\<close>

fun unlink_each :: "string \<Rightarrow> directory \<Rightarrow> directory \<Rightarrow> string list \<Rightarrow> directory \<times> string list flow" where
  "unlink_each subdir [] d deleted = (d, Next deleted)"
| "unlink_each subdir ((name, e) # found) d deleted =
     (case unlink_error e of
        Some err \<Rightarrow> (d, Return (False, ''Failed to delete '' @ name @ '': '' @ err))
      | None \<Rightarrow> unlink_each subdir found (remove_entry name d) (deleted @ [subdir @ ''/'' @ name]))"

text \<open>The outer loop over the pairs of a directory and a pattern.\<close>

fun delete_files :: "(string \<times> string) list \<Rightarrow> world \<Rightarrow> string list \<Rightarrow> world \<times> string list flow" where
  "delete_files [] w deleted = (w, Next deleted)"
| "delete_files ((subdir, pattern) # ps) w deleted =
     (case dirs w subdir of
        None \<Rightarrow> delete_files ps w deleted
      | Some d \<Rightarrow>
          (case glob d pattern of
             Inl e \<Rightarrow> (w, Raise e)
           | Inr found \<Rightarrow>
               (case unlink_each subdir found d deleted of
                  (d', Next deleted') \<Rightarrow> delete_files ps (w\<lparr>dirs := (dirs w)(subdir \<mapsto> d')\<rparr>) deleted'
                | (d', Raise e) \<Rightarrow> (w\<lparr>dirs := (dirs w)(subdir \<mapsto> d')\<rparr>, Raise e)
                | (d', Return r) \<Rightarrow> (w\<lparr>dirs := (dirs w)(subdir \<mapsto> d')\<rparr>, Return r))))"

definition delete_transcript :: "world \<Rightarrow> string \<Rightarrow> world \<times> (py_error + bool \<times> string)" where
  "delete_transcript w video_id =
     (case delete_files (patterns video_id) w [] of
        (w1, Raise e) \<Rightarrow> (w1, Inl e)
      | (w1, Return r) \<Rightarrow> (w1, Inr r)
      | (w1, Next deleted_files) \<Rightarrow>
          if deleted_files = [] then (w1, Inr (False, ''No files found for video ID: '' @ video_id))
          else
            (let state = load_state w1
             in case py_in video_id state of
                  Inl e \<Rightarrow> (w1, Inl e)
                | Inr present \<Rightarrow>
                    (case (if present
                           then (case py_delitem state video_id of
                                   Inl e \<Rightarrow> Inl e
                                 | Inr state' \<Rightarrow> save_state w1 state')
                           else Inr w1) of
                       Inl e \<Rightarrow> (w1, Inl e)
                     | Inr w2 \<Rightarrow>
                         (rebuild_viewer w2,
                          Inr (True, ''Deleted '' @ str_nat (length deleted_files) @ '' files'')))))"

subsection \<open>The request handler\<close>

text \<open>
  A request is given by \<^verbatim>\<open>urlparse(self.path).path\<close> and, for PATCH, by the bytes read as
  its body (\<open>None\<close> when there are none). A handler returns the new file system and either
  the exception that escapes it or the response sent.
\<close>

record response =
  status :: nat
  payload :: json

definition error_response :: "nat \<Rightarrow> string \<Rightarrow> response" where
  "error_response code message = \<lparr>status = code, payload = JObj [(''error'', JStr message)]\<rparr>"

text \<open>Every path but \<^verbatim>\<open>/api/state\<close> is left to the static file handler of the base class.\<close>

datatype get_result = Api response | Static string

definition do_GET :: "world \<Rightarrow> string \<Rightarrow> get_result" where
  "do_GET w path =
     (if path = ''/api/state'' then Api \<lparr>status = 200, payload = load_state w\<rparr>
      else Static path)"

definition default_record :: json where
  "default_record = JObj [(''read'', JBool False), (''starred'', JBool False), (''archived'', JBool False)]"

text \<open>
  The loop over the three keys: \<^verbatim>\<open>state[video_id][key] = bool(updates[key])\<close> evaluates
  the right-hand side first. The record is a dict held inside \<open>state\<close> and is changed in
  place; here it is stored back under its key.
\<close>

fun apply_updates :: "string list \<Rightarrow> json \<Rightarrow> string \<Rightarrow> json \<Rightarrow> py_error + json" where
  "apply_updates [] updates video_id state = Inr state"
| "apply_updates (key # keys) updates video_id state =
     (case py_in key updates of
        Inl e \<Rightarrow> Inl e
      | Inr present \<Rightarrow>
          if \<not> present then apply_updates keys updates video_id state
          else
            (case py_getitem updates key of
               Inl e \<Rightarrow> Inl e
             | Inr v \<Rightarrow>
                 (case py_getitem state video_id of
                    Inl e \<Rightarrow> Inl e
                  | Inr record \<Rightarrow>
                      (case py_setitem record key (JBool (py_bool v)) of
                         Inl e \<Rightarrow> Inl e
                       | Inr record' \<Rightarrow>
                           (case py_setitem state video_id record' of
                              Inl e \<Rightarrow> Inl e
                            | Inr state' \<Rightarrow> apply_updates keys updates video_id state')))))"

definition invalid_video_id :: "string \<Rightarrow> bool" where
  "invalid_video_id video_id = (video_id = [] \<or> length video_id \<noteq> 11)"

definition do_PATCH :: "world \<Rightarrow> string \<Rightarrow> doc option \<Rightarrow> world \<times> (py_error + response)" where
  "do_PATCH w path request_body =
     (if startswith path ''/api/state/'' then
        (let video_id = last (split_on (CHR ''/'') path)
         in if invalid_video_id video_id then (w, Inr (error_response 400 ''Invalid video ID''))
            else
              (case (case request_body of None \<Rightarrow> Inr (JObj []) | Some b \<Rightarrow> json_loads b) of
                 Inl e \<Rightarrow>
                   if e = JSONDecodeError then (w, Inr (error_response 400 ''Invalid JSON''))
                   else (w, Inl e)
               | Inr updates \<Rightarrow>
                   (let state = load_state w
                    in case py_in video_id state of
                         Inl e \<Rightarrow> (w, Inl e)
                       | Inr present \<Rightarrow>
                           (case (if \<not> present then py_setitem state video_id default_record
                                  else Inr state) of
                              Inl e \<Rightarrow> (w, Inl e)
                            | Inr state1 \<Rightarrow>
                                (case apply_updates [''read'', ''starred'', ''archived'']
                                        updates video_id state1 of
                                   Inl e \<Rightarrow> (w, Inl e)
                                 | Inr state2 \<Rightarrow>
                                     (case save_state w state2 of
                                        Inl e \<Rightarrow> (w, Inl e)
                                      | Inr w' \<Rightarrow>
                                          (case py_getitem state2 video_id of
                                             Inl e \<Rightarrow> (w', Inl e)
                                           | Inr record \<Rightarrow>
                                               (w', Inr \<lparr>status = 200,
                                                         payload = JObj [(''success'', JBool True),
                                                                         (''state'', record)]\<rparr>))))))))
      else (w, Inr (error_response 404 ''Not found'')))"

definition do_DELETE :: "world \<Rightarrow> string \<Rightarrow> world \<times> (py_error + response)" where
  "do_DELETE w path =
     (if startswith path ''/api/delete/'' then
        (let video_id = last (split_on (CHR ''/'') path)
         in if invalid_video_id video_id then (w, Inr (error_response 400 ''Invalid video ID''))
            else
              (case delete_transcript w video_id of
                 (w', Inl e) \<Rightarrow> (w', Inl e)
               | (w', Inr (success, message)) \<Rightarrow>
                   if success
                   then (w', Inr \<lparr>status = 200,
                                  payload = JObj [(''success'', JBool True),
                                                  (''message'', JStr message)]\<rparr>)
                   else (w', Inr (error_response 404 message))))
      else (w, Inr (error_response 404 ''Not found'')))"


section \<open>Notions used in the statements\<close>

text \<open>A name in a content directory is matched by one of the pairs of a directory and a pattern.\<close>

definition matched_by :: "(string \<times> string) list \<Rightarrow> string \<Rightarrow> string \<Rightarrow> bool" where
  "matched_by ps subdir name = list_ex (\<lambda>(s, pat). s = subdir \<and> fnmatch name pat) ps"

text \<open>The file system once a state has been written to the state file.\<close>

definition written :: "world \<Rightarrow> json \<Rightarrow> world" where
  "written w state = w\<lparr>state_file := Holds (json_dumps state)\<rparr>"

text \<open>
  A small installation: two summaries, the transcripts of the first video in two formats,
  a state entry for it, and a template.
\<close>

definition example_summary :: string where
  "example_summary =
     ''# A talk'' @ [newline] @ ''**Channel:** Somebody'' @ [newline]
     @ ''**URL:** https://youtu.be/abcdefgh123'' @ [newline] @ ''Text.'' @ [newline]"

definition example_world :: world where
  "example_world =
     \<lparr>dirs = [''summaries'' \<mapsto>
                 [(''2025-01-01-abcdefghijk.md'', Entry None (Some example_summary)),
                  (''2025-01-02-Zbcdefghijk.md'', Entry None (Some ''No heading''))],
              ''transcripts'' \<mapsto>
                 [(''2025-01-01-abcdefghijk.txt'', Entry None None),
                  (''2025-01-01-abcdefghijk.srt'', Entry None None)]],
      state_file = Holds (Json (JObj [(''abcdefghijk'',
                     JObj [(''read'', JBool True), (''starred'', JBool False),
                           (''archived'', JBool False)])])),
      template_file = Holds ''<script>const summaries = /*SUMMARIES_DATA*/[];</script>'',
      index_html = Absent,
      build_script = True\<rparr>"

text \<open>The same installation with a transcript that cannot be removed.\<close>

definition locked_world :: world where
  "locked_world =
     example_world\<lparr>dirs := (dirs example_world)(''transcripts'' \<mapsto>
        [(''2025-01-01-abcdefghijk.txt'', Entry None None),
         (''2025-01-01-abcdefghijk.srt'', Entry (Some ''[Errno 13] Permission denied'') None)])\<rparr>"

text \<open>An installation with an empty summaries directory, and one without the directory.\<close>

definition empty_world :: world where
  "empty_world = example_world\<lparr>dirs := [''summaries'' \<mapsto> []], state_file := Absent\<rparr>"

definition bare_world :: world where
  "bare_world = example_world\<lparr>dirs := Map.empty, state_file := Holds Garbage\<rparr>"

section \<open>Request paths\<close>

lemma split_on_no_sep: "sep \<notin> set v \<Longrightarrow> split_on sep v = [v]"
  by (induction v) auto

lemma split_on_append_sep:
  "\<exists>front. front \<noteq> [] \<and> split_on sep (p @ sep # v) = front @ split_on sep v"
proof (induction p)
  case Nil
  have "split_on sep ([] @ sep # v) = [[]] @ split_on sep v" by simp
  then show ?case by blast
next
  case (Cons c p)
  then obtain f fs where *: "split_on sep (p @ sep # v) = (f # fs) @ split_on sep v"
    by (metis list.exhaust)
  show ?case
  proof (cases "c = sep")
    case True
    with * have "split_on sep ((c # p) @ sep # v) = ([] # f # fs) @ split_on sep v" by simp
    then show ?thesis by blast
  next
    case False
    with * have "split_on sep ((c # p) @ sep # v) = ((c # f) # fs) @ split_on sep v" by simp
    then show ?thesis by blast
  qed
qed

lemma last_split_on:
  assumes "sep \<notin> set v"
  shows "last (split_on sep (p @ sep # v)) = v"
proof -
  obtain front where "split_on sep (p @ sep # v) = front @ split_on sep v"
    using split_on_append_sep by blast
  with assms show ?thesis by (simp add: split_on_no_sep)
qed

lemma state_segment:
  "CHR ''/'' \<notin> set vid \<Longrightarrow> last (split_on (CHR ''/'') (''/api/state/'' @ vid)) = vid"
  using last_split_on [of "CHR ''/''" vid "''/api/state''"] by simp

lemma delete_segment:
  "CHR ''/'' \<notin> set vid \<Longrightarrow> last (split_on (CHR ''/'') (''/api/delete/'' @ vid)) = vid"
  using last_split_on [of "CHR ''/''" vid "''/api/delete''"] by simp

lemma state_prefix: "startswith (''/api/state/'' @ vid) ''/api/state/''"
  by (simp add: startswith_def)

lemma delete_prefix: "startswith (''/api/delete/'' @ vid) ''/api/delete/''"
  by (simp add: startswith_def)

lemma do_PATCH_invalid:
  assumes "startswith path ''/api/state/''" and "last (split_on (CHR ''/'') path) = vid"
    and "length vid \<noteq> 11"
  shows "do_PATCH w path request_body = (w, Inr (error_response 400 ''Invalid video ID''))"
  using assms by (simp add: do_PATCH_def invalid_video_id_def)

lemma do_DELETE_invalid:
  assumes "startswith path ''/api/delete/''" and "last (split_on (CHR ''/'') path) = vid"
    and "length vid \<noteq> 11"
  shows "do_DELETE w path = (w, Inr (error_response 400 ''Invalid video ID''))"
  using assms by (simp add: do_DELETE_def invalid_video_id_def)

section \<open>Rejected identifiers\<close>

text \<open>
  Claim C3. A PATCH to \<^verbatim>\<open>/api/state/{id}\<close> and a DELETE to \<^verbatim>\<open>/api/delete/{id}\<close> whose
  id segment is not exactly 11 characters long are answered with status 400, and the
  file system (state store and content files) is what it was before the request.
\<close>

theorem wrong_length_rejected:
  assumes "CHR ''/'' \<notin> set vid" and "length vid \<noteq> 11"
  shows "do_PATCH w (''/api/state/'' @ vid) request_body
           = (w, Inr \<lparr>status = 400, payload = JObj [(''error'', JStr ''Invalid video ID'')]\<rparr>)
       \<and> do_DELETE w (''/api/delete/'' @ vid)
           = (w, Inr \<lparr>status = 400, payload = JObj [(''error'', JStr ''Invalid video ID'')]\<rparr>)"
proof -
  have "do_PATCH w (''/api/state/'' @ vid) request_body
          = (w, Inr (error_response 400 ''Invalid video ID''))"
    by (rule do_PATCH_invalid [OF state_prefix state_segment [OF assms(1)] assms(2)])
  moreover have "do_DELETE w (''/api/delete/'' @ vid)
          = (w, Inr (error_response 400 ''Invalid video ID''))"
    by (rule do_DELETE_invalid [OF delete_prefix delete_segment [OF assms(1)] assms(2)])
  ultimately show ?thesis
    by (simp only: error_response_def)
qed

theorem wrong_length_rejected_witness:
  "do_PATCH example_world (''/api/state/'' @ ''short'') (Some (Json (JObj [(''read'', JBool True)])))
     = (example_world, Inr \<lparr>status = 400, payload = JObj [(''error'', JStr ''Invalid video ID'')]\<rparr>)
   \<and> do_DELETE example_world (''/api/delete/'' @ ''short'')
     = (example_world, Inr \<lparr>status = 400, payload = JObj [(''error'', JStr ''Invalid video ID'')]\<rparr>)"
  by (rule wrong_length_rejected) simp_all

section \<open>Loading the state\<close>

text \<open>
  Claim C6. When the state file exists and parses as JSON, \<open>load_state\<close> returns the
  value it holds; in every other case (the file is missing, cannot be read, or does not
  parse) it returns the empty mapping. It has no exceptional result.
\<close>

theorem load_state_total:
  "(state_file w = Holds (Json v) \<longrightarrow> load_state w = v)
   \<and> ((\<forall>v. state_file w \<noteq> Holds (Json v)) \<longrightarrow> load_state w = JObj [])"
  by (auto simp: load_state_def file_exists_def read_text_def json_loads_def
      split: pyfile.splits doc.splits)

theorem load_state_total_witness:
  "load_state example_world
     = JObj [(''abcdefghijk'', JObj [(''read'', JBool True), (''starred'', JBool False),
                                      (''archived'', JBool False)])]
   \<and> load_state empty_world = JObj []
   \<and> load_state bare_world = JObj []"
  using load_state_total [of example_world
      "JObj [(''abcdefghijk'', JObj [(''read'', JBool True), (''starred'', JBool False),
                                      (''archived'', JBool False)])]"]
    load_state_total [of empty_world] load_state_total [of bare_world]
  by (simp add: example_world_def empty_world_def bare_world_def)


section \<open>Building the page\<close>






section \<open>Removing files\<close>

lemma glob_Inr:
  "glob d pat = Inr found \<longleftrightarrow>
     \<not> is_substring ''**'' pat \<and> found = filter (\<lambda>(name, e). fnmatch name pat) d"
  by (auto simp: glob_def)

lemma unlink_each_ok:
  "\<forall>(n, e) \<in> set found. unlink_error e = None \<Longrightarrow>
   unlink_each sub found d deleted
     = (fold (\<lambda>(n, e). remove_entry n) found d,
        Next (deleted @ map (\<lambda>(n, e). sub @ ''/'' @ n) found))"
  by (induction found arbitrary: d deleted) auto

lemma fold_remove_keep:
  "\<forall>(m, e') \<in> set ms. m \<noteq> n \<Longrightarrow>
   fold (\<lambda>(m, e'). remove_entry m) ms ((n, e) # d) = (n, e) # fold (\<lambda>(m, e'). remove_entry m) ms d"
  by (induction ms arbitrary: d) auto

lemma fold_remove_filter:
  "fold (\<lambda>(m, e). remove_entry m) (filter (\<lambda>(n, e). P n) d) d = filter (\<lambda>(n, e). \<not> P n) d"
proof (induction d)
  case Nil
  then show ?case by simp
next
  case (Cons x d)
  obtain n e where x: "x = (n, e)" by (cases x)
  show ?case
  proof (cases "P n")
    case True
    with Cons x show ?thesis by simp
  next
    case False
    have "\<forall>(m, e') \<in> set (filter (\<lambda>(n, e). P n) d). m \<noteq> n"
      using False by auto
    from fold_remove_keep [OF this] Cons False x show ?thesis by simp
  qed
qed

lemma matched_by_Cons:
  "matched_by ((s, pat) # ps) sub n = ((s = sub \<and> fnmatch n pat) \<or> matched_by ps sub n)"
  by (simp add: matched_by_def)

lemma matched_by_Nil: "matched_by [] sub n = False"
  by (simp add: matched_by_def)

text \<open>The pairs can all be served: no pattern is refused and no matching entry resists.\<close>

lemma delete_files_ok:
  assumes "\<forall>(sub, pat) \<in> set ps. \<forall>d. dirs w sub = Some d \<longrightarrow>
             \<not> is_substring ''**'' pat \<and> (\<forall>(n, e) \<in> set d. fnmatch n pat \<longrightarrow> unlink_error e = None)"
  shows "\<exists>deleted'.
           delete_files ps w deleted
             = (w\<lparr>dirs := \<lambda>sub. map_option (filter (\<lambda>(n, e). \<not> matched_by ps sub n)) (dirs w sub)\<rparr>,
                Next deleted')
           \<and> length deleted \<le> length deleted'
           \<and> ((\<exists>(sub, pat) \<in> set ps. \<exists>d. dirs w sub = Some d \<and> filter (\<lambda>(n, e). fnmatch n pat) d \<noteq> [])
                \<longrightarrow> length deleted < length deleted')"
  using assms
proof (induction ps arbitrary: w deleted)
  case Nil
  have "(\<lambda>sub. map_option (filter (\<lambda>(n, e). \<not> matched_by [] sub n)) (dirs w sub)) = dirs w"
  proof
    fix sub
    show "map_option (filter (\<lambda>(n, e). \<not> matched_by [] sub n)) (dirs w sub) = dirs w sub"
      by (cases "dirs w sub") (simp_all add: matched_by_Nil split_def)
  qed
  then show ?case by simp
next
  case (Cons p ps)
  obtain sub pat where p: "p = (sub, pat)" by (cases p)
  show ?case
  proof (cases "dirs w sub")
    case None
    have ok: "\<forall>(sub, pat) \<in> set ps. \<forall>d. dirs w sub = Some d \<longrightarrow>
             \<not> is_substring ''**'' pat \<and> (\<forall>(n, e) \<in> set d. fnmatch n pat \<longrightarrow> unlink_error e = None)"
      using Cons.prems by auto
    from Cons.IH [OF ok, of deleted] obtain deleted' where
      r: "delete_files ps w deleted
             = (w\<lparr>dirs := \<lambda>sub. map_option (filter (\<lambda>(n, e). \<not> matched_by ps sub n)) (dirs w sub)\<rparr>,
                Next deleted')"
      and l: "length deleted \<le> length deleted'"
      and g: "(\<exists>(sub, pat) \<in> set ps. \<exists>d. dirs w sub = Some d \<and> filter (\<lambda>(n, e). fnmatch n pat) d \<noteq> [])
                \<longrightarrow> length deleted < length deleted'"
      by blast
    have same: "(\<lambda>s. map_option (filter (\<lambda>(n, e). \<not> matched_by (p # ps) s n)) (dirs w s))
              = (\<lambda>s. map_option (filter (\<lambda>(n, e). \<not> matched_by ps s n)) (dirs w s))"
    proof
      fix s
      show "map_option (filter (\<lambda>(n, e). \<not> matched_by (p # ps) s n)) (dirs w s)
          = map_option (filter (\<lambda>(n, e). \<not> matched_by ps s n)) (dirs w s)"
        using None by (cases "s = sub") (auto simp: p matched_by_Cons)
    qed
    have "delete_files (p # ps) w deleted = delete_files ps w deleted"
      using None by (simp add: p)
    with r l g same None show ?thesis
      by (auto simp: p)
  next
    case (Some d)
    let ?found = "filter (\<lambda>(n, e). fnmatch n pat) d"
    let ?d' = "filter (\<lambda>(n, e). \<not> fnmatch n pat) d"
    let ?w1 = "w\<lparr>dirs := (dirs w)(sub \<mapsto> ?d')\<rparr>"
    let ?del1 = "deleted @ map (\<lambda>(n, e). sub @ ''/'' @ n) ?found"
    from Cons.prems Some p have ns: "\<not> is_substring ''**'' pat"
      and free: "\<forall>(n, e) \<in> set d. fnmatch n pat \<longrightarrow> unlink_error e = None"
      by auto
    have g: "glob d pat = Inr ?found"
      using ns by (simp add: glob_def)
    have "\<forall>(n, e) \<in> set ?found. unlink_error e = None"
      using free by auto
    from unlink_each_ok [OF this, of sub d deleted]
    have u: "unlink_each sub ?found d deleted = (?d', Next ?del1)"
      by (simp add: fold_remove_filter)
    have step: "delete_files (p # ps) w deleted = delete_files ps ?w1 ?del1"
      using Some g u by (simp add: p)
    have ok1: "\<forall>(s, pt) \<in> set ps. \<forall>dd. dirs ?w1 s = Some dd \<longrightarrow>
             \<not> is_substring ''**'' pt \<and> (\<forall>(n, e) \<in> set dd. fnmatch n pt \<longrightarrow> unlink_error e = None)"
    proof (intro ballI, clarify)
      fix s pt dd
      assume mem: "(s, pt) \<in> set ps" and dd: "dirs ?w1 s = Some dd"
      from Cons.prems mem
      have P: "\<forall>d. dirs w s = Some d \<longrightarrow>
             \<not> is_substring ''**'' pt \<and> (\<forall>(n, e) \<in> set d. fnmatch n pt \<longrightarrow> unlink_error e = None)"
        by fastforce
      show "\<not> is_substring ''**'' pt \<and> (\<forall>(n, e) \<in> set dd. fnmatch n pt \<longrightarrow> unlink_error e = None)"
      proof (cases "s = sub")
        case True
        with dd have "dd = ?d'" by simp
        moreover from P True Some
        have "\<not> is_substring ''**'' pt \<and> (\<forall>(n, e) \<in> set d. fnmatch n pt \<longrightarrow> unlink_error e = None)"
          by simp
        ultimately show ?thesis by auto
      next
        case False
        with dd have "dirs w s = Some dd" by simp
        with P show ?thesis by simp
      qed
    qed
    from Cons.IH [OF ok1, of ?del1] obtain deleted' where
      r: "delete_files ps ?w1 ?del1
             = (?w1\<lparr>dirs := \<lambda>s. map_option (filter (\<lambda>(n, e). \<not> matched_by ps s n)) (dirs ?w1 s)\<rparr>,
                Next deleted')"
      and l: "length ?del1 \<le> length deleted'"
      and gt: "(\<exists>(s, pt) \<in> set ps. \<exists>dd. dirs ?w1 s = Some dd \<and> filter (\<lambda>(n, e). fnmatch n pt) dd \<noteq> [])
                \<longrightarrow> length ?del1 < length deleted'"
      by blast
    have same: "(\<lambda>s. map_option (filter (\<lambda>(n, e). \<not> matched_by ps s n)) (dirs ?w1 s))
              = (\<lambda>s. map_option (filter (\<lambda>(n, e). \<not> matched_by (p # ps) s n)) (dirs w s))"
    proof
      fix s
      show "map_option (filter (\<lambda>(n, e). \<not> matched_by ps s n)) (dirs ?w1 s)
          = map_option (filter (\<lambda>(n, e). \<not> matched_by (p # ps) s n)) (dirs w s)"
      proof (cases "s = sub")
        case True
        have "filter (\<lambda>(n, e). \<not> matched_by ps sub n) ?d'
            = filter (\<lambda>(n, e). \<not> matched_by (p # ps) sub n) d"
          by (induction d) (auto simp: p matched_by_Cons)
        with True Some show ?thesis by simp
      next
        case False
        then show ?thesis by (simp add: p matched_by_Cons)
      qed
    qed
    have world: "?w1\<lparr>dirs := \<lambda>s. map_option (filter (\<lambda>(n, e). \<not> matched_by ps s n)) (dirs ?w1 s)\<rparr>
               = w\<lparr>dirs := \<lambda>s. map_option (filter (\<lambda>(n, e). \<not> matched_by (p # ps) s n)) (dirs w s)\<rparr>"
      using same by simp
    have len: "length deleted \<le> length deleted'"
      using l by simp
    have grow: "(\<exists>(s, pt) \<in> set (p # ps). \<exists>dd. dirs w s = Some dd \<and> filter (\<lambda>(n, e). fnmatch n pt) dd \<noteq> [])
                \<longrightarrow> length deleted < length deleted'"
    proof
      assume ex: "\<exists>(s, pt) \<in> set (p # ps). \<exists>dd. dirs w s = Some dd \<and> filter (\<lambda>(n, e). fnmatch n pt) dd \<noteq> []"
      show "length deleted < length deleted'"
      proof (cases "?found = []")
        case False
        then have "0 < length ?found" by blast
        then have "length deleted < length ?del1" by simp
        with l show ?thesis by linarith
      next
        case True
        then have "?d' = d"
          by (induction d) (auto split: if_splits)
        then have w1: "?w1 = w"
          using Some by (simp add: map_upd_triv)
        from ex True Some have "\<exists>(s, pt) \<in> set ps. \<exists>dd. dirs w s = Some dd \<and> filter (\<lambda>(n, e). fnmatch n pt) dd \<noteq> []"
          by (auto simp: p)
        with gt w1 have "length ?del1 < length deleted'" by simp
        then show ?thesis by simp
      qed
    qed
    from step r world len grow show ?thesis by simp
  qed
qed


lemma delete_files_none:
  assumes "\<forall>(sub, pat) \<in> set ps. \<forall>d. dirs w sub = Some d \<longrightarrow> glob d pat = Inr []"
  shows "delete_files ps w deleted = (w, Next deleted)"
  using assms
proof (induction ps)
  case Nil
  then show ?case by simp
next
  case (Cons p ps)
  obtain sub pat where p: "p = (sub, pat)" by (cases p)
  show ?case
  proof (cases "dirs w sub")
    case None
    with Cons show ?thesis by (simp add: p)
  next
    case (Some d)
    with Cons.prems have "glob d pat = Inr []" by (simp add: p)
    moreover have "w\<lparr>dirs := (dirs w)(sub \<mapsto> d)\<rparr> = w"
      using Some by (simp add: map_upd_triv)
    ultimately show ?thesis
      using Some Cons by (simp add: p)
  qed
qed

lemma build_viewer_frame:
  "fst (build_viewer w) = w\<lparr>index_html := index_html (fst (build_viewer w))\<rparr>"
  by (simp add: build_viewer_def Let_def split: option.splits sum.splits)

lemma rebuild_viewer_frame:
  "rebuild_viewer w = w\<lparr>index_html := index_html (rebuild_viewer w)\<rparr>"
  using build_viewer_frame [of w] by (simp add: rebuild_viewer_def)

lemma rebuild_viewer_dirs: "dirs (rebuild_viewer w) = dirs w"
  by (subst rebuild_viewer_frame) simp

lemma rebuild_viewer_state_file: "state_file (rebuild_viewer w) = state_file w"
  by (subst rebuild_viewer_frame) simp

lemma load_state_cong: "state_file w = state_file v \<Longrightarrow> load_state w = load_state v"
  by (simp add: load_state_def)

lemma load_state_saved: "state_file w = Holds (json_dumps v) \<Longrightarrow> load_state w = v"
  by (simp add: load_state_def file_exists_def read_text_def json_loads_def json_dumps_def)

lemma unreadable_store_empty: "state_file w = Unreadable \<Longrightarrow> load_state w = JObj []"
  by (simp add: load_state_def file_exists_def read_text_def)

lemma save_state_ok: "state_file w \<noteq> Unreadable \<Longrightarrow> save_state w st = Inr (written w st)"
  by (simp add: save_state_def written_def)

lemma save_state_fails: "state_file w = Unreadable \<Longrightarrow> save_state w st = Inl OSError"
  by (simp add: save_state_def)

lemma load_state_written: "load_state (written w st) = st"
  by (simp add: written_def load_state_saved)

lemma state_file_written: "state_file (written w st) = Holds (json_dumps st)"
  by (simp add: written_def)

text \<open>
  What \<open>delete_transcript\<close> does once the loops have removed at least one file. An id
  found in the store was read from the state file, which can therefore be opened.
\<close>

lemma delete_transcript_after_removal:
  assumes "delete_files (patterns vid) w [] = (w1, Next deleted)" and "deleted \<noteq> []"
    and "load_state w1 = JObj kvs"
  shows "delete_transcript w vid
           = (rebuild_viewer (if map_of kvs vid = None then w1
                              else written w1 (JObj (AList.delete vid kvs))),
              Inr (True, ''Deleted '' @ str_nat (length deleted) @ '' files''))"
proof (cases "map_of kvs vid = None")
  case True
  with assms show ?thesis by (simp add: delete_transcript_def)
next
  case False
  have "state_file w1 \<noteq> Unreadable"
  proof
    assume "state_file w1 = Unreadable"
    then have "kvs = []" using assms(3) by (simp add: unreadable_store_empty)
    with False show False by simp
  qed
  with assms False show ?thesis by (auto simp: delete_transcript_def save_state_ok)
qed

lemma delete_transcript_nothing:
  assumes "delete_files (patterns vid) w [] = (w1, Next [])"
  shows "delete_transcript w vid = (w1, Inr (False, ''No files found for video ID: '' @ vid))"
  using assms by (simp add: delete_transcript_def)

lemma do_DELETE_valid:
  assumes "startswith path ''/api/delete/''" and "last (split_on (CHR ''/'') path) = vid"
    and "length vid = 11"
  shows "do_DELETE w path =
           (case delete_transcript w vid of
              (w', Inl e) \<Rightarrow> (w', Inl e)
            | (w', Inr (success, message)) \<Rightarrow>
                if success
                then (w', Inr \<lparr>status = 200,
                               payload = JObj [(''success'', JBool True), (''message'', JStr message)]\<rparr>)
                else (w', Inr (error_response 404 message)))"
  using assms by (auto simp: do_DELETE_def invalid_video_id_def)

text \<open>An identifier with two adjacent stars makes every one of the five patterns unacceptable.\<close>

lemma no_star_no_double: "CHR ''*'' \<notin> set s \<Longrightarrow> \<not> is_substring ''**'' s"
  by (induction s) (auto simp: startswith_def)

lemma double_star_append:
  assumes "CHR ''*'' \<notin> set ext" and "ext \<noteq> []"
  shows "is_substring ''**'' (v @ ext) = is_substring ''**'' v"
proof (induction v)
  case Nil
  then show ?case using assms by (simp add: no_star_no_double)
next
  case (Cons c v)
  show ?case
  proof (cases v)
    case Nil
    obtain x xs where "ext = x # xs" using assms(2) by (cases ext) auto
    with assms(1) Nil Cons show ?thesis
      by (auto simp: startswith_def no_star_no_double)
  next
    case (Cons d v')
    with Cons.IH show ?thesis by (simp add: startswith_def)
  qed
qed

lemma pattern_star:
  "(sub, pat) \<in> set (patterns vid) \<Longrightarrow> is_substring ''**'' pat = is_substring ''**'' vid"
  by (auto simp: patterns_def startswith_def double_star_append)


lemma unlink_each_fail:
  "(n, e) \<in> set found \<Longrightarrow> unlink_error e = Some err \<Longrightarrow>
   \<exists>d' n' err'. unlink_each sub found d deleted
      = (d', Return (False, ''Failed to delete '' @ n' @ '': '' @ err'))"
proof (induction found arbitrary: d deleted)
  case Nil
  then show ?case by simp
next
  case (Cons x found)
  obtain m f where x: "x = (m, f)" by (cases x)
  show ?case
  proof (cases "unlink_error f")
    case None
    with Cons x have "(n, e) \<in> set found" by auto
    from Cons.IH [OF this Cons.prems(2)] None x show ?thesis by simp
  next
    case (Some a)
    then show ?thesis by (simp add: x) blast
  qed
qed

lemma delete_files_dirs_only:
  "dirs v = dirs w \<Longrightarrow>
   delete_files ps v deleted
     = (v\<lparr>dirs := dirs (fst (delete_files ps w deleted))\<rparr>, snd (delete_files ps w deleted))"
proof (induction ps arbitrary: v w deleted)
  case Nil
  then show ?case by simp
next
  case (Cons p ps)
  obtain sub pat where p: "p = (sub, pat)" by (cases p)
  note same = Cons.prems
  show ?case
  proof (cases "dirs w sub")
    case None
    then have "delete_files (p # ps) v deleted = delete_files ps v deleted"
      and "delete_files (p # ps) w deleted = delete_files ps w deleted"
      using same by (simp_all add: p)
    with Cons.IH [OF same, of deleted] show ?thesis by simp
  next
    case (Some d)
    then have Some': "dirs v sub = Some d" using same by simp
    show ?thesis
    proof (cases "glob d pat")
      case (Inl e)
      with Some Some' same show ?thesis by (simp add: p)
    next
      case (Inr found)
      obtain d' fl where u: "unlink_each sub found d deleted = (d', fl)"
        by (cases "unlink_each sub found d deleted")
      let ?v1 = "v\<lparr>dirs := (dirs v)(sub \<mapsto> d')\<rparr>"
      let ?w1 = "w\<lparr>dirs := (dirs w)(sub \<mapsto> d')\<rparr>"
      have same1: "dirs ?v1 = dirs ?w1" using same by simp
      show ?thesis
      proof (cases fl)
        case (Next deleted')
        have "delete_files (p # ps) v deleted = delete_files ps ?v1 deleted'"
          and "delete_files (p # ps) w deleted = delete_files ps ?w1 deleted'"
          using Some Some' Inr u Next by (simp_all add: p)
        with Cons.IH [OF same1, of deleted'] show ?thesis by simp
      next
        case (Raise e)
        with Some Some' Inr u same show ?thesis by (simp add: p fun_upd_def)
      next
        case (Return r)
        with Some Some' Inr u same show ?thesis by (simp add: p fun_upd_def)
      qed
    qed
  qed
qed

lemma delete_files_fail:
  assumes "\<forall>(sub, pat) \<in> set ps. \<not> is_substring ''**'' pat"
    and "(s, pt) \<in> set ps" and "dirs w s = Some dd" and "(n, e) \<in> set dd"
    and "fnmatch n pt" and "unlink_error e = Some err"
  shows "\<exists>n' err'. snd (delete_files ps w deleted)
           = Return (False, ''Failed to delete '' @ n' @ '': '' @ err')"
  using assms(1-4)
proof (induction ps arbitrary: w deleted dd)
  case Nil
  then show ?case by simp
next
  case (Cons p ps)
  obtain sub pat where p: "p = (sub, pat)" by (cases p)
  note fm = assms(5) and ue = assms(6)
  from Cons.prems(1) have ns: "\<not> is_substring ''**'' pat"
    and nss: "\<forall>(sub, pat) \<in> set ps. \<not> is_substring ''**'' pat"
    by (auto simp: p)
  note mem = Cons.prems(2) and dd = Cons.prems(3) and ne = Cons.prems(4)
  show ?case
  proof (cases "dirs w sub")
    case None
    with mem dd have "(s, pt) \<in> set ps" by (auto simp: p)
    from Cons.IH [OF nss this dd ne, of deleted] None show ?thesis by (simp add: p)
  next
    case (Some d)
    let ?found = "filter (\<lambda>(n, e). fnmatch n pat) d"
    have g: "glob d pat = Inr ?found" using ns by (simp add: glob_def)
    show ?thesis
    proof (cases "\<forall>(n, e) \<in> set ?found. unlink_error e = None")
      case False
      then obtain x where x: "x \<in> set ?found" "unlink_error (snd x) \<noteq> None"
        by (auto simp: split_def)
      then obtain a where a: "unlink_error (snd x) = Some a" by auto
      have xin: "(fst x, snd x) \<in> set ?found" using x(1) by simp
      from unlink_each_fail [OF xin a, of sub d deleted] obtain d' n' err' where
        "unlink_each sub ?found d deleted
           = (d', Return (False, ''Failed to delete '' @ n' @ '': '' @ err'))"
        by blast
      with Some g have "snd (delete_files (p # ps) w deleted)
          = Return (False, ''Failed to delete '' @ n' @ '': '' @ err')"
        by (simp add: p)
      then show ?thesis by blast
    next
      case True
      let ?d' = "filter (\<lambda>(n, e). \<not> fnmatch n pat) d"
      let ?w1 = "w\<lparr>dirs := (dirs w)(sub \<mapsto> ?d')\<rparr>"
      let ?del1 = "deleted @ map (\<lambda>(n, e). sub @ ''/'' @ n) ?found"
      from unlink_each_ok [OF True, of sub d deleted]
      have u: "unlink_each sub ?found d deleted = (?d', Next ?del1)"
        by (simp add: fold_remove_filter)
      have step: "delete_files (p # ps) w deleted = delete_files ps ?w1 ?del1"
        using Some g u by (simp add: p)
      have notp: "\<not> (s = sub \<and> fnmatch n pat)"
      proof
        assume "s = sub \<and> fnmatch n pat"
        with dd Some ne have "(n, e) \<in> set ?found" by auto
        with True ue show False by auto
      qed
      then have in_ps: "(s, pt) \<in> set ps"
        using mem fm by (auto simp: p)
      have "\<exists>d1. dirs ?w1 s = Some d1 \<and> (n, e) \<in> set d1"
      proof (cases "s = sub")
        case True
        with notp dd Some ne show ?thesis by auto
      next
        case False
        with dd ne show ?thesis by simp
      qed
      then obtain d1 where "dirs ?w1 s = Some d1" and "(n, e) \<in> set d1" by blast
      from Cons.IH [OF nss in_ps this, of ?del1] step show ?thesis by simp
    qed
  qed
qed



section \<open>Deleting a video\<close>

lemma example_md_matches: "fnmatch ''2025-01-01-abcdefghijk.md'' ''*-abcdefghijk.md''"
  by code_simp

lemma example_no_star: "\<not> is_substring ''**'' ''abcdefghijk''"
  by code_simp

lemma example_survivors:
  "filter (\<lambda>(n, e). \<not> matched_by (patterns ''abcdefghijk'') ''summaries'' n)
      [(''2025-01-01-abcdefghijk.md'', Entry None (Some example_summary)),
       (''2025-01-02-Zbcdefghijk.md'', Entry None (Some ''No heading''))]
     = [(''2025-01-02-Zbcdefghijk.md'', Entry None (Some ''No heading''))]"
  "filter (\<lambda>(n, e). \<not> matched_by (patterns ''abcdefghijk'') ''transcripts'' n)
      [(''2025-01-01-abcdefghijk.txt'', Entry None None),
       (''2025-01-01-abcdefghijk.srt'', Entry None None)]
     = []"
  by code_simp+

lemma example_entries_free:
  "dirs example_world sub = Some d \<Longrightarrow> (n, e) \<in> set d \<Longrightarrow> unlink_error e = None"
  by (auto simp: example_world_def split: if_splits)


text \<open>
  Claim C1. Let the id have 11 characters, let the state store hold a mapping, let
  \<^verbatim>\<open>glob\<close> find at least one file over the five pairs of a directory and a pattern, and let
  no file that it finds resist its removal. Then DELETE \<^verbatim>\<open>/api/delete/{id}\<close> answers 200,
  every content directory keeps exactly the entries that no pattern of its own matches
  (so that every pattern now finds nothing), the id is no longer in the state store, which
  has been written back when the id was in it, and the same request sent again is
  answered with 404.
\<close>

theorem delete_removes_all:
  assumes len: "length vid = 11" and seg: "CHR ''/'' \<notin> set vid"
    and store: "load_state w = JObj kvs"
    and noerr: "\<forall>(sub, pat) \<in> set (patterns vid). \<forall>d. dirs w sub = Some d \<longrightarrow>
                  (\<exists>found. glob d pat = Inr found \<and> (\<forall>(n, e) \<in> set found. unlink_error e = None))"
    and some: "\<exists>(sub, pat) \<in> set (patterns vid). \<exists>d found.
                  dirs w sub = Some d \<and> glob d pat = Inr found \<and> found \<noteq> []"
  shows "\<exists>w' r r'.
           do_DELETE w (''/api/delete/'' @ vid) = (w', Inr r) \<and> status r = 200
           \<and> (\<forall>sub. dirs w' sub
                  = map_option (filter (\<lambda>(n, e). \<not> matched_by (patterns vid) sub n)) (dirs w sub))
           \<and> (\<forall>(sub, pat) \<in> set (patterns vid). \<forall>d. dirs w' sub = Some d \<longrightarrow> glob d pat = Inr [])
           \<and> state_file w' = (if map_of kvs vid = None then state_file w
                               else Holds (json_dumps (JObj (AList.delete vid kvs))))
           \<and> py_in vid (load_state w') = Inr False
           \<and> do_DELETE w' (''/api/delete/'' @ vid) = (w', Inr r') \<and> status r' = 404"
proof -
  let ?ps = "patterns vid"
  let ?path = "''/api/delete/'' @ vid"
  let ?D = "\<lambda>sub. map_option (filter (\<lambda>(n, e). \<not> matched_by ?ps sub n)) (dirs w sub)"
  define w1 where "w1 = w\<lparr>dirs := ?D\<rparr>"
  define w2 where "w2 = (if map_of kvs vid = None then w1
                         else written w1 (JObj (AList.delete vid kvs)))"
  define w' where "w' = rebuild_viewer w2"
  have ok: "\<forall>(sub, pat) \<in> set ?ps. \<forall>d. dirs w sub = Some d \<longrightarrow>
             \<not> is_substring ''**'' pat \<and> (\<forall>(n, e) \<in> set d. fnmatch n pat \<longrightarrow> unlink_error e = None)"
  proof (intro ballI, clarify)
    fix sub pat d
    assume "(sub, pat) \<in> set ?ps" and "dirs w sub = Some d"
    with noerr obtain found where "glob d pat = Inr found"
      and "\<forall>(n, e) \<in> set found. unlink_error e = None"
      by fastforce
    then show "\<not> is_substring ''**'' pat \<and> (\<forall>(n, e) \<in> set d. fnmatch n pat \<longrightarrow> unlink_error e = None)"
      by (auto simp: glob_Inr)
  qed
  have ex: "\<exists>(sub, pat) \<in> set ?ps. \<exists>d. dirs w sub = Some d \<and> filter (\<lambda>(n, e). fnmatch n pat) d \<noteq> []"
    using some by (fastforce simp: glob_Inr)
  from delete_files_ok [OF ok, of "[]"] ex obtain deleted where
    df: "delete_files ?ps w [] = (w1, Next deleted)" and ne: "deleted \<noteq> []"
    unfolding w1_def by fastforce
  have ls1: "load_state w1 = JObj kvs"
    using store load_state_cong [of w1 w] by (simp add: w1_def)
  from delete_transcript_after_removal [OF df ne ls1]
  have dt: "delete_transcript w vid
           = (w', Inr (True, ''Deleted '' @ str_nat (length deleted) @ '' files''))"
    by (simp add: w'_def w2_def)
  have first: "do_DELETE w ?path
      = (w', Inr \<lparr>status = 200,
                   payload = JObj [(''success'', JBool True),
                     (''message'', JStr (''Deleted '' @ str_nat (length deleted) @ '' files''))]\<rparr>)"
    by (simp only: do_DELETE_valid [OF delete_prefix delete_segment [OF seg] len] dt) simp
  have dirs': "dirs w' = ?D"
    by (simp add: w'_def w2_def w1_def rebuild_viewer_dirs written_def)
  have sf': "state_file w' = (if map_of kvs vid = None then state_file w
                               else Holds (json_dumps (JObj (AList.delete vid kvs))))"
    by (simp add: w'_def w2_def w1_def rebuild_viewer_state_file written_def)
  have gone: "\<forall>(sub, pat) \<in> set ?ps. \<forall>d. dirs w' sub = Some d \<longrightarrow> glob d pat = Inr []"
  proof (intro ballI, clarify)
    fix sub pat d'
    assume mem: "(sub, pat) \<in> set ?ps" and d': "dirs w' sub = Some d'"
    from d' dirs' obtain d where d: "dirs w sub = Some d"
      and eq: "d' = filter (\<lambda>(n, e). \<not> matched_by ?ps sub n) d"
      by auto
    from ok mem d have "\<not> is_substring ''**'' pat" by fastforce
    moreover have "filter (\<lambda>(n, e). fnmatch n pat) d' = []"
      using mem unfolding eq
      by (auto simp: filter_empty_conv matched_by_def list_ex_iff)
    ultimately show "glob d' pat = Inr []"
      by (simp add: glob_def)
  qed
  have ls': "py_in vid (load_state w') = Inr False"
  proof (cases "map_of kvs vid = None")
    case True
    then have "state_file w' = state_file w" using sf' by simp
    then have "load_state w' = JObj kvs" using store load_state_cong [of w' w] by simp
    with True show ?thesis by simp
  next
    case False
    with sf' have "state_file w' = Holds (json_dumps (JObj (AList.delete vid kvs)))"
      by simp
    then have "load_state w' = JObj (AList.delete vid kvs)"
      by (rule load_state_saved)
    then show ?thesis by (simp add: delete_conv)
  qed
  from delete_transcript_nothing [OF delete_files_none [OF gone, of "[]"]]
  have "delete_transcript w' vid = (w', Inr (False, ''No files found for video ID: '' @ vid))" .
  then have second: "do_DELETE w' ?path
      = (w', Inr (error_response 404 (''No files found for video ID: '' @ vid)))"
    by (simp only: do_DELETE_valid [OF delete_prefix delete_segment [OF seg] len]) simp
  have s404: "status (error_response 404 (''No files found for video ID: '' @ vid)) = 404"
    by (simp add: error_response_def)
  show ?thesis
  proof (intro exI conjI)
    show "do_DELETE w ?path = (w', Inr \<lparr>status = 200,
                   payload = JObj [(''success'', JBool True),
                     (''message'', JStr (''Deleted '' @ str_nat (length deleted) @ '' files''))]\<rparr>)"
      by (rule first)
    show "do_DELETE w' ?path = (w', Inr (error_response 404 (''No files found for video ID: '' @ vid)))"
      by (rule second)
    show "status (error_response 404 (''No files found for video ID: '' @ vid)) = 404"
      by (rule s404)
    show "\<forall>sub. dirs w' sub = ?D sub" using dirs' by simp
    show "\<forall>(sub, pat) \<in> set ?ps. \<forall>d. dirs w' sub = Some d \<longrightarrow> glob d pat = Inr []" by (rule gone)
    show "state_file w' = (if map_of kvs vid = None then state_file w
                               else Holds (json_dumps (JObj (AList.delete vid kvs))))" by (rule sf')
    show "py_in vid (load_state w') = Inr False" by (rule ls')
  qed simp
qed


theorem delete_removes_all_witness:
  "\<exists>w' r r'.
     do_DELETE example_world (''/api/delete/'' @ ''abcdefghijk'') = (w', Inr r) \<and> status r = 200
     \<and> dirs w' ''summaries'' = Some [(''2025-01-02-Zbcdefghijk.md'', Entry None (Some ''No heading''))]
     \<and> dirs w' ''transcripts'' = Some []
     \<and> state_file w' = Holds (Json (JObj []))
     \<and> py_in ''abcdefghijk'' (load_state w') = Inr False
     \<and> do_DELETE w' (''/api/delete/'' @ ''abcdefghijk'') = (w', Inr r') \<and> status r' = 404"
proof -
  let ?kvs = "[(''abcdefghijk'', JObj [(''read'', JBool True), (''starred'', JBool False),
                                      (''archived'', JBool False)])]"
  have len: "length ''abcdefghijk'' = 11" and seg: "CHR ''/'' \<notin> set ''abcdefghijk''"
    by simp_all
  have store: "load_state example_world = JObj ?kvs"
    by (simp add: example_world_def load_state_def file_exists_def read_text_def json_loads_def)
  have ns: "\<forall>(sub, pat) \<in> set (patterns ''abcdefghijk''). \<not> is_substring ''**'' pat"
    using example_no_star by (auto simp: pattern_star)
  have noerr: "\<forall>(sub, pat) \<in> set (patterns ''abcdefghijk''). \<forall>d. dirs example_world sub = Some d \<longrightarrow>
                  (\<exists>found. glob d pat = Inr found \<and> (\<forall>(n, e) \<in> set found. unlink_error e = None))"
  proof (intro ballI, clarify)
    fix sub pat d
    assume mem: "(sub, pat) \<in> set (patterns ''abcdefghijk'')" and d: "dirs example_world sub = Some d"
    from ns mem have "glob d pat = Inr (filter (\<lambda>(name, e). fnmatch name pat) d)"
      by (auto simp: glob_def)
    moreover have "\<forall>(n, e) \<in> set (filter (\<lambda>(name, e). fnmatch name pat) d). unlink_error e = None"
      using example_entries_free [OF d] by auto
    ultimately show "\<exists>found. glob d pat = Inr found \<and> (\<forall>(n, e) \<in> set found. unlink_error e = None)"
      by blast
  qed
  have some: "\<exists>(sub, pat) \<in> set (patterns ''abcdefghijk''). \<exists>d found.
                  dirs example_world sub = Some d \<and> glob d pat = Inr found \<and> found \<noteq> []"
  proof -
    have "(''summaries'', ''*-abcdefghijk.md'') \<in> set (patterns ''abcdefghijk'')"
      by (simp add: patterns_def)
    moreover have "dirs example_world ''summaries''
        = Some [(''2025-01-01-abcdefghijk.md'', Entry None (Some example_summary)),
                (''2025-01-02-Zbcdefghijk.md'', Entry None (Some ''No heading''))]"
      by (simp add: example_world_def)
    moreover have "glob [(''2025-01-01-abcdefghijk.md'', Entry None (Some example_summary)),
                (''2025-01-02-Zbcdefghijk.md'', Entry None (Some ''No heading''))] ''*-abcdefghijk.md''
        = Inr (filter (\<lambda>(name, e). fnmatch name ''*-abcdefghijk.md'')
                [(''2025-01-01-abcdefghijk.md'', Entry None (Some example_summary)),
                 (''2025-01-02-Zbcdefghijk.md'', Entry None (Some ''No heading''))])"
      using ns by (auto simp: glob_def patterns_def)
    moreover have "filter (\<lambda>(name, e). fnmatch name ''*-abcdefghijk.md'')
                [(''2025-01-01-abcdefghijk.md'', Entry None (Some example_summary)),
                 (''2025-01-02-Zbcdefghijk.md'', Entry None (Some ''No heading''))] \<noteq> []"
      using example_md_matches by simp
    ultimately show ?thesis by blast
  qed
  from delete_removes_all [OF len seg store noerr some] obtain w' r r' where
    a: "do_DELETE example_world (''/api/delete/'' @ ''abcdefghijk'') = (w', Inr r)" "status r = 200"
    and b: "\<forall>sub. dirs w' sub
              = map_option (filter (\<lambda>(n, e). \<not> matched_by (patterns ''abcdefghijk'') sub n))
                  (dirs example_world sub)"
    and c: "state_file w' = (if map_of ?kvs ''abcdefghijk'' = None then state_file example_world
                               else Holds (json_dumps (JObj (AList.delete ''abcdefghijk'' ?kvs))))"
    and d: "py_in ''abcdefghijk'' (load_state w') = Inr False"
    and e: "do_DELETE w' (''/api/delete/'' @ ''abcdefghijk'') = (w', Inr r')" "status r' = 404"
    by blast
  have "dirs w' ''summaries'' = Some [(''2025-01-02-Zbcdefghijk.md'', Entry None (Some ''No heading''))]"
    using b example_survivors(1) by (simp add: example_world_def)
  moreover have "dirs w' ''transcripts'' = Some []"
    using b example_survivors(2) by (simp add: example_world_def)
  moreover have "state_file w' = Holds (Json (JObj []))"
    using c by (simp add: json_dumps_def)
  ultimately show ?thesis using a d e by blast
qed



section \<open>A removal that fails\<close>

lemma locked_glob:
  "glob [(''2025-01-01-abcdefghijk.txt'', Entry None None),
         (''2025-01-01-abcdefghijk.srt'', Entry (Some ''[Errno 13] Permission denied'') None)]
        ''*-abcdefghijk.srt''
     = Inr [(''2025-01-01-abcdefghijk.srt'', Entry (Some ''[Errno 13] Permission denied'') None)]"
  by code_simp

text \<open>
  Claim C8. When \<^verbatim>\<open>glob\<close> finds, for one of the five pairs, a file whose removal fails,
  \<open>delete_transcript\<close> returns failure with a message naming a file that could not be
  deleted. The outcome is the same whatever the state file, the template, the output page
  and the build script are, and all four are left as they were: the state store is neither
  read nor written (an entry for the id stays), and the viewer is not rebuilt. Only the
  content directories may have changed, by the removals made before the failure.
\<close>

theorem failed_removal_leaves_state:
  assumes "(sub, pat) \<in> set (patterns vid)" and "dirs w sub = Some d"
    and "glob d pat = Inr found" and "(n, e) \<in> set found" and "unlink_error e = Some err"
  shows "\<exists>ds name err'. \<forall>sf tf ih bs.
           delete_transcript (w\<lparr>state_file := sf, template_file := tf, index_html := ih,
                                 build_script := bs\<rparr>) vid
             = (w\<lparr>dirs := ds, state_file := sf, template_file := tf, index_html := ih,
                   build_script := bs\<rparr>,
                Inr (False, ''Failed to delete '' @ name @ '': '' @ err'))"
proof -
  let ?ps = "patterns vid"
  from assms(3) have ns: "\<not> is_substring ''**'' pat" and f: "found = filter (\<lambda>(n, e). fnmatch n pat) d"
    by (auto simp: glob_Inr)
  from ns assms(1) have "\<not> is_substring ''**'' vid"
    by (simp add: pattern_star)
  then have nss: "\<forall>(sub, pat) \<in> set ?ps. \<not> is_substring ''**'' pat"
    by (auto simp: pattern_star)
  from assms(4) f have "(n, e) \<in> set d" and "fnmatch n pat" by auto
  from delete_files_fail [OF nss assms(1,2) this assms(5), of "[]"] obtain name err' where
    r: "snd (delete_files ?ps w []) = Return (False, ''Failed to delete '' @ name @ '': '' @ err')"
    by blast
  define ds where "ds = dirs (fst (delete_files ?ps w []))"
  have "\<forall>sf tf ih bs.
           delete_transcript (w\<lparr>state_file := sf, template_file := tf, index_html := ih,
                                 build_script := bs\<rparr>) vid
             = (w\<lparr>dirs := ds, state_file := sf, template_file := tf, index_html := ih,
                   build_script := bs\<rparr>,
                Inr (False, ''Failed to delete '' @ name @ '': '' @ err'))"
  proof (intro allI)
    fix sf tf ih bs
    let ?v = "w\<lparr>state_file := sf, template_file := tf, index_html := ih, build_script := bs\<rparr>"
    have "dirs ?v = dirs w" by simp
    from delete_files_dirs_only [OF this, of ?ps "[]"] r
    have "delete_files ?ps ?v [] = (?v\<lparr>dirs := ds\<rparr>,
             Return (False, ''Failed to delete '' @ name @ '': '' @ err'))"
      by (simp add: ds_def)
    then show "delete_transcript ?v vid
             = (w\<lparr>dirs := ds, state_file := sf, template_file := tf, index_html := ih,
                   build_script := bs\<rparr>,
                Inr (False, ''Failed to delete '' @ name @ '': '' @ err'))"
      by (simp add: delete_transcript_def)
  qed
  then show ?thesis by blast
qed


theorem failed_removal_leaves_state_witness:
  "\<exists>ds name err'. \<forall>sf tf ih bs.
           delete_transcript (locked_world\<lparr>state_file := sf, template_file := tf, index_html := ih,
                                 build_script := bs\<rparr>) ''abcdefghijk''
             = (locked_world\<lparr>dirs := ds, state_file := sf, template_file := tf, index_html := ih,
                   build_script := bs\<rparr>,
                Inr (False, ''Failed to delete '' @ name @ '': '' @ err'))"
proof -
  have a: "(''transcripts'', ''*-abcdefghijk.srt'') \<in> set (patterns ''abcdefghijk'')"
    by (simp add: patterns_def)
  have b: "dirs locked_world ''transcripts''
     = Some [(''2025-01-01-abcdefghijk.txt'', Entry None None),
             (''2025-01-01-abcdefghijk.srt'', Entry (Some ''[Errno 13] Permission denied'') None)]"
    by (simp add: locked_world_def)
  have c: "(''2025-01-01-abcdefghijk.srt'', Entry (Some ''[Errno 13] Permission denied'') None)
      \<in> set [(''2025-01-01-abcdefghijk.srt'', Entry (Some ''[Errno 13] Permission denied'') None)]"
    by simp
  have d: "unlink_error (Entry (Some ''[Errno 13] Permission denied'') None)
      = Some ''[Errno 13] Permission denied''"
    by simp
  show ?thesis
    by (rule failed_removal_leaves_state [OF a b locked_glob c d])
qed



section \<open>Identifiers that are patterns\<close>

lemma star_delete_eval:
  "(case do_DELETE example_world (''/api/delete/'' @ ''*bcdefghijk'') of
      (w', Inr r) \<Rightarrow> status r = 200 \<and> dirs w' ''summaries'' = Some []
    | (w', Inl e) \<Rightarrow> False)"
  by code_simp

lemma star_name_differs: "\<not> is_substring (''-'' @ ''*bcdefghijk'') ''2025-01-02-Zbcdefghijk.md''"
  by code_simp

text \<open>
  Claim C9. The check that PATCH and DELETE apply to the id segment rejects a string
  exactly when its length is not 11, so a string of 11 characters that contains a star
  is accepted. For such an id (\<^verbatim>\<open>*bcdefghijk\<close>) and the example installation, DELETE
  answers 200 and empties the summaries directory, which held a file whose name does not
  contain \<^verbatim>\<open>-{id}\<close>: the summary of another video.
\<close>

theorem only_length_is_checked:
  "(\<forall>vid. invalid_video_id vid = (length vid \<noteq> 11))
   \<and> (\<exists>w vid sub d name e w' r.
        length vid = 11 \<and> CHR ''*'' \<in> set vid
        \<and> dirs w sub = Some d \<and> (name, e) \<in> set d \<and> \<not> is_substring (''-'' @ vid) name
        \<and> do_DELETE w (''/api/delete/'' @ vid) = (w', Inr r) \<and> status r = 200
        \<and> dirs w' sub = Some [])"
proof
  show "\<forall>vid. invalid_video_id vid = (length vid \<noteq> 11)"
    by (auto simp: invalid_video_id_def)
next
  obtain w' res where dd: "do_DELETE example_world (''/api/delete/'' @ ''*bcdefghijk'') = (w', res)"
    by (cases "do_DELETE example_world (''/api/delete/'' @ ''*bcdefghijk'')")
  with star_delete_eval obtain r where r: "res = Inr r" "status r = 200"
    and gone: "dirs w' ''summaries'' = Some []"
    by (cases res) auto
  have d: "dirs example_world ''summaries''
        = Some [(''2025-01-01-abcdefghijk.md'', Entry None (Some example_summary)),
                (''2025-01-02-Zbcdefghijk.md'', Entry None (Some ''No heading''))]"
    by (simp add: example_world_def)
  have mem: "(''2025-01-02-Zbcdefghijk.md'', Entry None (Some ''No heading''))
      \<in> set [(''2025-01-01-abcdefghijk.md'', Entry None (Some example_summary)),
              (''2025-01-02-Zbcdefghijk.md'', Entry None (Some ''No heading''))]"
    by simp
  have len: "length ''*bcdefghijk'' = 11" and star: "CHR ''*'' \<in> set ''*bcdefghijk''"
    by simp_all
  from len star d mem star_name_differs dd r gone
  show "\<exists>w vid sub d name e w' r.
        length vid = 11 \<and> CHR ''*'' \<in> set vid
        \<and> dirs w sub = Some d \<and> (name, e) \<in> set d \<and> \<not> is_substring (''-'' @ vid) name
        \<and> do_DELETE w (''/api/delete/'' @ vid) = (w', Inr r) \<and> status r = 200
        \<and> dirs w' sub = Some []"
    by blast
qed

section \<open>Updating the flags\<close>

lemma apply_updates_none:
  "\<forall>k \<in> set keys. py_in k updates = Inr False \<Longrightarrow> apply_updates keys updates vid st = Inr st"
  by (induction keys) auto

lemma do_PATCH_valid:
  assumes "startswith path ''/api/state/''" and "last (split_on (CHR ''/'') path) = vid"
    and "length vid = 11" and "load_state w = JObj kvs" and "state_file w \<noteq> Unreadable"
  shows "do_PATCH w path (Some (Json updates)) =
     (case apply_updates [''read'', ''starred'', ''archived''] updates vid
             (if map_of kvs vid = None then JObj (AList.update vid default_record kvs) else JObj kvs) of
        Inl e \<Rightarrow> (w, Inl e)
      | Inr state2 \<Rightarrow>
          (case py_getitem state2 vid of
             Inl e \<Rightarrow> (written w state2, Inl e)
           | Inr record \<Rightarrow>
               (written w state2,
                Inr \<lparr>status = 200, payload = JObj [(''success'', JBool True), (''state'', record)]\<rparr>)))"
proof -
  from assms(3) have "vid \<noteq> []" by auto
  with assms show ?thesis
    by (cases "map_of kvs vid")
       (auto simp add: do_PATCH_def invalid_video_id_def json_loads_def Let_def save_state_ok
          simp del: apply_updates.simps split: sum.splits)
qed

lemma do_PATCH_no_keys:
  assumes "startswith path ''/api/state/''" and "last (split_on (CHR ''/'') path) = vid"
    and "length vid = 11" and "load_state w = JObj kvs" and "state_file w \<noteq> Unreadable"
    and "\<forall>k \<in> set [''read'', ''starred'', ''archived'']. py_in k updates = Inr False"
  shows "do_PATCH w path (Some (Json updates)) =
     (case map_of kvs vid of
        Some r \<Rightarrow>
          (written w (JObj kvs),
           Inr \<lparr>status = 200, payload = JObj [(''success'', JBool True), (''state'', r)]\<rparr>)
      | None \<Rightarrow>
          (written w (JObj (AList.update vid default_record kvs)),
           Inr \<lparr>status = 200, payload = JObj [(''success'', JBool True), (''state'', default_record)]\<rparr>))"
  by (simp only: do_PATCH_valid [OF assms(1-5)] apply_updates_none [OF assms(6)])
     (simp add: update_conv' split: option.splits)

text \<open>With a state file that cannot be opened, the handler raises when it writes the state.\<close>

lemma do_PATCH_unwritable:
  assumes "startswith path ''/api/state/''" and "last (split_on (CHR ''/'') path) = vid"
    and "length vid = 11" and "state_file w = Unreadable"
  shows "do_PATCH w path None = (w, Inl OSError)"
proof -
  from assms(3) have "vid \<noteq> []" by auto
  with assms show ?thesis
    by (simp add: do_PATCH_def invalid_video_id_def unreadable_store_empty save_state_fails)
qed

lemma example_writable: "state_file example_world \<noteq> Unreadable"
  by (simp add: example_world_def)

lemma empty_writable: "state_file empty_world \<noteq> Unreadable"
  by (simp add: empty_world_def)

lemma example_store:
  "load_state example_world
     = JObj [(''abcdefghijk'', JObj [(''read'', JBool True), (''starred'', JBool False),
                                      (''archived'', JBool False)])]"
  by (simp add: example_world_def load_state_def file_exists_def read_text_def json_loads_def)

lemma empty_store: "load_state empty_world = JObj []"
  by (simp add: empty_world_def load_state_def file_exists_def)

text \<open>
  Claim C5. For an id of 11 characters and a state store that holds a mapping and whose
  file can be opened where it exists, a PATCH whose
  body is a JSON object with none of the keys \<^verbatim>\<open>read\<close>, \<^verbatim>\<open>starred\<close>, \<^verbatim>\<open>archived\<close> is answered
  with 200 and the record, and the state written is the state then loaded. Where a record
  existed, the mapping and the record are what they were; where none existed, the mapping
  has gained a record for the id with the three flags false.
\<close>

theorem patch_without_known_keys:
  assumes "length vid = 11" and "CHR ''/'' \<notin> set vid" and "load_state w = JObj kvs"
    and "state_file w \<noteq> Unreadable"
    and "map_of upd ''read'' = None" and "map_of upd ''starred'' = None"
    and "map_of upd ''archived'' = None"
  shows "\<exists>w' resp.
           do_PATCH w (''/api/state/'' @ vid) (Some (Json (JObj upd))) = (w', Inr resp)
           \<and> status resp = 200
           \<and> state_file w' = Holds (json_dumps (load_state w'))
           \<and> (case map_of kvs vid of
                 Some r \<Rightarrow>
                   load_state w' = JObj kvs
                   \<and> payload resp = JObj [(''success'', JBool True), (''state'', r)]
               | None \<Rightarrow>
                   load_state w' = JObj (AList.update vid
                       (JObj [(''read'', JBool False), (''starred'', JBool False),
                              (''archived'', JBool False)]) kvs)
                   \<and> payload resp = JObj [(''success'', JBool True),
                       (''state'', JObj [(''read'', JBool False), (''starred'', JBool False),
                                         (''archived'', JBool False)])])"
proof -
  have keys: "\<forall>k \<in> set [''read'', ''starred'', ''archived'']. py_in k (JObj upd) = Inr False"
    using assms(5-7) by simp
  show ?thesis
    by (simp only: do_PATCH_no_keys [OF state_prefix state_segment [OF assms(2)] assms(1,3,4) keys])
       (simp add: load_state_written state_file_written default_record_def
          split: option.splits)
qed

theorem patch_without_known_keys_witness:
  "(\<exists>w' resp.
      do_PATCH example_world (''/api/state/'' @ ''abcdefghijk'')
          (Some (Json (JObj [(''note'', JStr ''later'')]))) = (w', Inr resp)
      \<and> status resp = 200
      \<and> payload resp = JObj [(''success'', JBool True),
            (''state'', JObj [(''read'', JBool True), (''starred'', JBool False),
                              (''archived'', JBool False)])])
   \<and> (\<exists>w' resp.
      do_PATCH empty_world (''/api/state/'' @ ''abcdefghijk'')
          (Some (Json (JObj [(''note'', JStr ''later'')]))) = (w', Inr resp)
      \<and> status resp = 200
      \<and> load_state w' = JObj [(''abcdefghijk'',
            JObj [(''read'', JBool False), (''starred'', JBool False), (''archived'', JBool False)])])"
  using patch_without_known_keys [of "''abcdefghijk''" example_world
      "[(''abcdefghijk'', JObj [(''read'', JBool True), (''starred'', JBool False),
                                 (''archived'', JBool False)])]" "[(''note'', JStr ''later'')]"]
    patch_without_known_keys [of "''abcdefghijk''" empty_world "[]" "[(''note'', JStr ''later'')]"]
  by (simp add: example_store empty_store example_writable empty_writable) blast

text \<open>
  Claim C10, as amended. For an id of 11 characters and a state store that holds a mapping
  and whose file can be opened where it exists, a
  PATCH whose body is a JSON array none of whose elements is one of the strings
  \<^verbatim>\<open>read\<close>, \<^verbatim>\<open>starred\<close>, \<^verbatim>\<open>archived\<close> is treated as a body without recognised keys:
  it is answered with 200, a missing record is created with the three flags false, and
  the state is written. (The membership test \<^verbatim>\<open>key in updates\<close> on a list looks at the
  elements; an array holding one of the three strings makes \<^verbatim>\<open>updates[key]\<close> raise.)
\<close>

theorem patch_with_array_body:
  assumes "length vid = 11" and "CHR ''/'' \<notin> set vid" and "load_state w = JObj kvs"
    and "state_file w \<noteq> Unreadable"
    and "JStr ''read'' \<notin> set xs" and "JStr ''starred'' \<notin> set xs"
    and "JStr ''archived'' \<notin> set xs"
  shows "\<exists>w' resp.
           do_PATCH w (''/api/state/'' @ vid) (Some (Json (JArr xs))) = (w', Inr resp)
           \<and> status resp = 200
           \<and> state_file w' = Holds (json_dumps (load_state w'))
           \<and> (case map_of kvs vid of
                 Some r \<Rightarrow>
                   load_state w' = JObj kvs
                   \<and> payload resp = JObj [(''success'', JBool True), (''state'', r)]
               | None \<Rightarrow>
                   load_state w' = JObj (AList.update vid
                       (JObj [(''read'', JBool False), (''starred'', JBool False),
                              (''archived'', JBool False)]) kvs)
                   \<and> payload resp = JObj [(''success'', JBool True),
                       (''state'', JObj [(''read'', JBool False), (''starred'', JBool False),
                                         (''archived'', JBool False)])])"
proof -
  have keys: "\<forall>k \<in> set [''read'', ''starred'', ''archived'']. py_in k (JArr xs) = Inr False"
    using assms(5-7) by simp
  show ?thesis
    by (simp only: do_PATCH_no_keys [OF state_prefix state_segment [OF assms(2)] assms(1,3,4) keys])
       (simp add: load_state_written state_file_written default_record_def
          split: option.splits)
qed

theorem patch_with_array_body_witness:
  "\<exists>w' resp.
      do_PATCH empty_world (''/api/state/'' @ ''abcdefghijk'')
          (Some (Json (JArr [JInt 1, JStr ''other'']))) = (w', Inr resp)
      \<and> status resp = 200
      \<and> load_state w' = JObj [(''abcdefghijk'',
            JObj [(''read'', JBool False), (''starred'', JBool False), (''archived'', JBool False)])]"
  using patch_with_array_body [of "''abcdefghijk''" empty_world "[]" "[JInt 1, JStr ''other'']"]
  by (simp add: empty_store empty_writable) blast

text \<open>The array \<^verbatim>\<open>["read"]\<close>: the handler raises \<^verbatim>\<open>TypeError\<close> and sends no response.\<close>

theorem patch_with_array_body_counterexample:
  "snd (do_PATCH example_world (''/api/state/'' @ ''abcdefghijk'') (Some (Json (JArr [JStr ''read'']))))
     = Inl TypeError"
  by code_simp

text \<open>
  Claim C2. For an id of 11 characters that is absent from the state store (a mapping,
  whose file can be opened where it exists), a
  PATCH to \<^verbatim>\<open>/api/state/{id}\<close> with the body \<^verbatim>\<open>{"starred": true}\<close> is answered with 200, and a
  GET of \<^verbatim>\<open>/api/state\<close> on the resulting file system returns, with status 200, a mapping in
  which the id has starred true, read false and archived false.
\<close>

theorem patch_starred_then_get:
  assumes "length vid = 11" and "CHR ''/'' \<notin> set vid" and "load_state w = JObj kvs"
    and "state_file w \<noteq> Unreadable" and "map_of kvs vid = None"
  shows "\<exists>w' resp kvs'.
           do_PATCH w (''/api/state/'' @ vid) (Some (Json (JObj [(''starred'', JBool True)])))
             = (w', Inr resp)
           \<and> status resp = 200
           \<and> do_GET w' ''/api/state'' = Api \<lparr>status = 200, payload = JObj kvs'\<rparr>
           \<and> map_of kvs' vid = Some (JObj [(''read'', JBool False), (''starred'', JBool True),
                                            (''archived'', JBool False)])"
proof -
  let ?rec = "JObj [(''read'', JBool False), (''starred'', JBool True), (''archived'', JBool False)]"
  let ?st = "JObj (AList.update vid ?rec (AList.update vid default_record kvs))"
  have au: "apply_updates [''read'', ''starred'', ''archived''] (JObj [(''starred'', JBool True)]) vid
              (JObj (AList.update vid default_record kvs)) = Inr ?st"
    by (simp add: update_conv' default_record_def)
  have "do_PATCH w (''/api/state/'' @ vid) (Some (Json (JObj [(''starred'', JBool True)])))
      = (written w ?st,
         Inr \<lparr>status = 200, payload = JObj [(''success'', JBool True), (''state'', ?rec)]\<rparr>)"
    using do_PATCH_valid [OF state_prefix state_segment [OF assms(2)] assms(1,3,4),
        of "JObj [(''starred'', JBool True)]"]
    by (simp add: assms(5) au update_conv' del: apply_updates.simps)
  moreover have "do_GET (written w ?st) ''/api/state'' = Api \<lparr>status = 200, payload = ?st\<rparr>"
    by (simp add: do_GET_def load_state_written)
  moreover have "map_of (AList.update vid ?rec (AList.update vid default_record kvs)) vid = Some ?rec"
    by (simp add: update_conv')
  ultimately show ?thesis by (intro exI conjI) (assumption | simp)+
qed


theorem patch_starred_then_get_witness:
  "\<exists>w' resp kvs'.
      do_PATCH empty_world (''/api/state/'' @ ''abcdefghijk'')
          (Some (Json (JObj [(''starred'', JBool True)]))) = (w', Inr resp)
      \<and> status resp = 200
      \<and> do_GET w' ''/api/state'' = Api \<lparr>status = 200, payload = JObj kvs'\<rparr>
      \<and> map_of kvs' ''abcdefghijk''
           = Some (JObj [(''read'', JBool False), (''starred'', JBool True),
                         (''archived'', JBool False)])"
  using patch_starred_then_get [of "''abcdefghijk''" empty_world "[]"]
  by (simp add: empty_store empty_writable)

section \<open>Parsing a summary\<close>

lemma url_gives_id:
  "extract_video_id name (Some ''https://youtu.be/abcdefgh123'') = Some ''abcdefgh123''"
proof -
  have "re_search v_param_at ''https://youtu.be/abcdefgh123'' = None" by code_simp
  moreover have "re_search youtu_be_at ''https://youtu.be/abcdefgh123'' = Some ''abcdefgh123''"
    by code_simp
  ultimately show ?thesis by (simp add: extract_video_id_def)
qed

lemma strip_example_url: "py_strip ''https://youtu.be/abcdefgh123'' = ''https://youtu.be/abcdefgh123''"
  by code_simp

lemma filename_gives_id:
  "extract_video_id ''2025-01-01-abcdefgh123.md'' None = Some ''abcdefgh123''"
proof -
  have "re_search filename_id_at ''2025-01-01-abcdefgh123.md'' = Some ''abcdefgh123''"
    by code_simp
  then show ?thesis by (simp add: extract_video_id_def)
qed

lemma url_at_marker: "url_at s = Some u \<Longrightarrow> startswith s ''**URL:**''"
  by (simp add: url_at_def split: if_splits)

lemma no_marker_no_url: "\<not> is_substring ''**URL:**'' s \<Longrightarrow> re_search url_at s = None"
proof (induction s)
  case Nil
  then show ?case by (simp add: url_at_def startswith_def)
next
  case (Cons c s)
  then have "url_at (c # s) = None"
    using url_at_marker [of "c # s"] by (cases "url_at (c # s)") auto
  with Cons show ?case by simp
qed

lemma example_summary_url:
  "re_search url_at example_summary = Some ''https://youtu.be/abcdefgh123''"
  by code_simp

lemma no_heading_no_marker: "\<not> is_substring ''**URL:**'' ''No heading''"
  by code_simp

text \<open>
  Claim C4, as amended. When the first \<^verbatim>\<open>**URL:**\<close> marker of the content that is followed
  by an http(s) URL carries \<^verbatim>\<open>https://youtu.be/abcdefgh123\<close>, parsing yields the video id
  \<^verbatim>\<open>abcdefgh123\<close> whatever the file name is. For a file named
  \<^verbatim>\<open>2025-01-01-abcdefgh123.md\<close> whose content contains no URL marker, parsing yields the
  same id from the file name, and the url field is the watch URL made from the id.
\<close>

theorem first_url_marker_decides:
  "(re_search url_at content = Some ''https://youtu.be/abcdefgh123'' \<longrightarrow>
      (\<exists>r. parse_summary name (Some content) = Some r \<and> sm_id r = ''abcdefgh123''
           \<and> sm_url r = ''https://youtu.be/abcdefgh123''))
   \<and> (\<not> is_substring ''**URL:**'' content \<longrightarrow>
      (\<exists>r. parse_summary ''2025-01-01-abcdefgh123.md'' (Some content) = Some r
           \<and> sm_id r = ''abcdefgh123''
           \<and> sm_url r = ''https://www.youtube.com/watch?v=abcdefgh123''))"
proof (intro conjI impI)
  assume "re_search url_at content = Some ''https://youtu.be/abcdefgh123''"
  then show "\<exists>r. parse_summary name (Some content) = Some r \<and> sm_id r = ''abcdefgh123''
           \<and> sm_url r = ''https://youtu.be/abcdefgh123''"
    by (simp add: parse_summary_def strip_example_url url_gives_id Let_def)
next
  assume "\<not> is_substring ''**URL:**'' content"
  then have "re_search url_at content = None" by (rule no_marker_no_url)
  then show "\<exists>r. parse_summary ''2025-01-01-abcdefgh123.md'' (Some content) = Some r
           \<and> sm_id r = ''abcdefgh123''
           \<and> sm_url r = ''https://www.youtube.com/watch?v=abcdefgh123''"
    by (simp add: parse_summary_def filename_gives_id Let_def)
qed

theorem first_url_marker_decides_witness:
  "(\<exists>r. parse_summary ''notes.md'' (Some example_summary) = Some r \<and> sm_id r = ''abcdefgh123''
        \<and> sm_url r = ''https://youtu.be/abcdefgh123'')
   \<and> (\<exists>r. parse_summary ''2025-01-01-abcdefgh123.md'' (Some ''No heading'') = Some r
        \<and> sm_id r = ''abcdefgh123''
        \<and> sm_url r = ''https://www.youtube.com/watch?v=abcdefgh123'')"
  using first_url_marker_decides [of example_summary "''notes.md''"]
    first_url_marker_decides [of "''No heading''"]
    example_summary_url no_heading_no_marker
  by blast

text \<open>
  A later line with the URL does not decide: with another video URL marked on an earlier
  line, the id is taken from that one.
\<close>

theorem url_line_counterexample:
  "is_substring ([newline] @ ''**URL:** https://youtu.be/abcdefgh123'' @ [newline])
     (''**URL:** https://youtu.be/ZZZZZZZZZZZ'' @ [newline]
      @ ''**URL:** https://youtu.be/abcdefgh123'' @ [newline])
   \<and> map_option sm_id (parse_summary ''notes.md''
        (Some (''**URL:** https://youtu.be/ZZZZZZZZZZZ'' @ [newline]
               @ ''**URL:** https://youtu.be/abcdefgh123'' @ [newline])))
     = Some ''ZZZZZZZZZZZ''"
  by code_simp


end
